theory Spec2Isabelle
  imports Main "HOL-Library.Word" "HOL-Library.AList"
begin

section \<open>The legacy (HCL 1.0) syntax tree\<close>

text \<open>
  The upgrade in package \<open>cliconfigupgrade\<close> reads a tree built by the HCL 1.0 parser
  and writes into an \<open>hclwrite\<close> body. Both libraries are outside the repository; what
  follows keeps of them the fields and accessors the upgrade code uses.

  A position has a byte offset, a line and a column (Go \<open>int\<close>s). The zero position
  \<open>token.Pos{}\<close> is \<open>Pos 0 0 0\<close>.
\<close>

datatype pos = Pos (Offset: int) (Line: int) (Column: int)

text \<open>
  Modelled from the spec: the comparison of positions (\<open>Pos.Before\<close>, \<open>Pos.After\<close> of
  the legacy token package, not part of the repository). The spec orders positions by
  source position; the model compares byte offsets.
\<close>

definition Before :: "pos \<Rightarrow> pos \<Rightarrow> bool" where
  "Before p u = (Offset p < Offset u)"

definition After :: "pos \<Rightarrow> pos \<Rightarrow> bool" where
  "After p u = (Offset u < Offset p)"

text \<open>
  \<open>Token.Value()\<close> returns an \<open>interface{}\<close>; the upgrade code switches on its dynamic
  type (\<open>string\<close>, \<open>int\<close>, \<open>float64\<close>, \<open>bool\<close>, anything else). The legacy token
  package gives a \<open>string\<close> for an identifier, a string or a heredoc, a \<open>bool\<close> for a
  boolean, a \<open>float64\<close> for a float and an \<open>int64\<close> (the result of
  \<open>strconv.ParseInt\<close>) for a NUMBER token; it never gives an \<open>int\<close>. A \<open>float64\<close>
  is kept as its 64 bits, an \<open>int\<close> and an \<open>int64\<close> as a 64-bit word.
\<close>

datatype tokenValue =
    StringV string
  | IntV "64 word"
  | Int64V "64 word"
  | Float64V "64 word"
  | BoolV bool
  | OtherV

datatype token = Token (TokPos: pos) (Value: tokenValue)

datatype comment = Comment (Start: pos) (Text: string)

datatype commentGroup = CommentGroup (List: "comment list")

text \<open>
  The node variants. \<open>LiteralType\<close>, \<open>ListType\<close> and \<open>ObjectType\<close> are the values an
  item can have; an \<open>ObjectItem\<close> can itself stand where a node is expected. The
  remaining implementations of the \<open>Node\<close> interface (\<open>File\<close>, \<open>Comment\<close>,
  \<open>CommentGroup\<close>, \<open>ObjectKey\<close>, \<open>ObjectList\<close>) never occur as the value of an item in
  a parsed tree; \<open>OtherNode\<close> keeps their dynamic type and position, which is all the
  upgrade code looks at.
\<close>

datatype nodeKind = FileK | CommentK | CommentGroupK | ObjectKeyK | ObjectListK

datatype node =
    LiteralType token "commentGroup option" "commentGroup option"
  | ListType pos pos "node list"
  | ObjectType pos pos "objectItem list"
  | ObjectItemNode objectItem
  | OtherNode nodeKind pos
and objectItem =
    ObjectItem (Keys: "token list") (Assign: pos) (Val: node)
               (LeadComment: "commentGroup option") (LineComment: "commentGroup option")

text \<open>The root of a file is a node; the parser makes it an \<open>ObjectList\<close>.\<close>

datatype fileNode = ObjectList "objectItem list" | NotObjectList node

datatype astFile = File (Node: fileNode) (Comments: "commentGroup list")

datatype panic =
    IndexOutOfRange
  | TypeAssertionString
  | TypeAssertionObjectType
  | TypeAssertionObjectList
  | ExpandEnvNotSupported
  | CannotDeriveExpression
  | UnsupportedNodeType

text \<open>
  \<open>CommentGroup.Pos()\<close> is the start of the first comment, \<open>c.List[0].Pos()\<close>: an index
  panic on a group with no comment.
\<close>

definition CommentGroup_Pos :: "commentGroup \<Rightarrow> panic + pos" where
  "CommentGroup_Pos g = (case List g of [] \<Rightarrow> Inl IndexOutOfRange | c # _ \<Rightarrow> Inr (Start c))"

text \<open>
  \<open>ObjectItem.Pos()\<close> is the position of the first key, and the zero position when the
  item has no key. \<open>Node.Pos()\<close> of a literal is its token's position, of a list or an
  object its opening bracket.
\<close>

definition ObjectItem_Pos :: "objectItem \<Rightarrow> pos" where
  "ObjectItem_Pos item = (case Keys item of [] \<Rightarrow> Pos 0 0 0 | k # _ \<Rightarrow> TokPos k)"

fun Node_Pos :: "node \<Rightarrow> pos" where
  "Node_Pos (LiteralType tok lead line) = TokPos tok"
| "Node_Pos (ListType lbrack rbrack ns) = lbrack"
| "Node_Pos (ObjectType lbrace rbrace items) = lbrace"
| "Node_Pos (ObjectItemNode item) = ObjectItem_Pos item"
| "Node_Pos (OtherNode k p) = p"

section \<open>comments.go\<close>

subsection \<open>The queue of ad hoc comments\<close>

type_synonym commentQueue = "commentGroup list"

text \<open>
  The loop of \<open>TakeBeforePos\<close>: \<open>for i = 0; i < len(*q); i++\<close>, leaving at the first
  group that lies after \<open>toPos\<close>. The result is the final \<open>i\<close>.
\<close>

function TakeBeforePos_loop :: "commentQueue \<Rightarrow> pos \<Rightarrow> nat \<Rightarrow> panic + nat" where
  "TakeBeforePos_loop q toPos i =
     (if i < length q then
        (case CommentGroup_Pos (q ! i) of
           Inl e \<Rightarrow> Inl e
         | Inr p \<Rightarrow> if After p toPos then Inr i else TakeBeforePos_loop q toPos (i + 1))
      else Inr i)"
  by pat_completeness auto
termination
  by (relation "measure (\<lambda>(q, toPos, i). length q - i)") auto

declare TakeBeforePos_loop.simps [simp del]

text \<open>
  \<open>TakeBeforePos\<close> returns the taken groups (\<open>nil\<close> is the empty list) and the queue it
  leaves behind.
\<close>

definition TakeBeforePos :: "commentQueue \<Rightarrow> pos \<Rightarrow> panic + (commentGroup list \<times> commentQueue)" where
  "TakeBeforePos q pos =
     (case TakeBeforePos_loop q pos 0 of
        Inl e \<Rightarrow> Inl e
      | Inr i \<Rightarrow> if i = 0 then Inr ([], q) else Inr (take i q, drop i q))"

definition TakeBeforeToken :: "commentQueue \<Rightarrow> token \<Rightarrow> panic + (commentGroup list \<times> commentQueue)" where
  "TakeBeforeToken q tok = TakeBeforePos q (TokPos tok)"

definition TakeBefore :: "commentQueue \<Rightarrow> objectItem \<Rightarrow> panic + (commentGroup list \<times> commentQueue)" where
  "TakeBefore q item = TakeBeforePos q (ObjectItem_Pos item)"


subsection \<open>Collecting the ad hoc comments\<close>

text \<open>
  The map \<open>comments\<close> of \<open>collectAdhocComments\<close>, keyed by position, is an association
  list. The first loop stores every comment group of the file under its position.
\<close>

fun collect_all :: "commentGroup list \<Rightarrow> (pos \<times> commentGroup) list \<Rightarrow> panic + (pos \<times> commentGroup) list" where
  "collect_all [] comments = Inr comments"
| "collect_all (c # cs) comments =
     (case CommentGroup_Pos c of
        Inl e \<Rightarrow> Inl e
      | Inr p \<Rightarrow> collect_all cs (AList.update p c comments))"

text \<open>
  The callback of the walk deletes, for a literal and for an item, the position of every
  comment of its lead and line comment groups.
\<close>

definition delete_group :: "commentGroup option \<Rightarrow> (pos \<times> commentGroup) list \<Rightarrow> (pos \<times> commentGroup) list" where
  "delete_group g comments =
     (case g of None \<Rightarrow> comments
      | Some t \<Rightarrow> fold (\<lambda>comment m. AList.delete (Start comment) m) (List t) comments)"

text \<open>
  \<open>Walk\<close> visits a node, then its children: the elements of a list, the items of an
  object, the value of an item.
\<close>

fun walk_node :: "node \<Rightarrow> (pos \<times> commentGroup) list \<Rightarrow> (pos \<times> commentGroup) list"
and walk_nodes :: "node list \<Rightarrow> (pos \<times> commentGroup) list \<Rightarrow> (pos \<times> commentGroup) list"
and walk_item :: "objectItem \<Rightarrow> (pos \<times> commentGroup) list \<Rightarrow> (pos \<times> commentGroup) list"
and walk_items :: "objectItem list \<Rightarrow> (pos \<times> commentGroup) list \<Rightarrow> (pos \<times> commentGroup) list" where
  "walk_node (LiteralType tok lead line) m = delete_group line (delete_group lead m)"
| "walk_node (ListType lbrack rbrack ns) m = walk_nodes ns m"
| "walk_node (ObjectType lbrace rbrace items) m = walk_items items m"
| "walk_node (ObjectItemNode item) m = walk_item item m"
| "walk_node (OtherNode k p) m = m"
| "walk_nodes [] m = m"
| "walk_nodes (n # ns) m = walk_nodes ns (walk_node n m)"
| "walk_item (ObjectItem keys assign val lead line) m =
     walk_node val (delete_group line (delete_group lead m))"
| "walk_items [] m = m"
| "walk_items (item # items) m = walk_items items (walk_item item m)"

definition walk_file :: "astFile \<Rightarrow> (pos \<times> commentGroup) list \<Rightarrow> (pos \<times> commentGroup) list" where
  "walk_file f m =
     (case Node f of ObjectList items \<Rightarrow> walk_items items m | NotObjectList n \<Rightarrow> walk_node n m)"

text \<open>
  \<open>sort.Slice\<close> with \<open>Before\<close> as the order: the groups left in the map, by ascending
  offset (the order in which Go walks the map is not fixed; the sorted result is, for
  groups of different offsets). Every group in the map has a first comment (its
  position is its key); the offset of a group without one is not used.
\<close>

definition groupOffset :: "commentGroup \<Rightarrow> int" where
  "groupOffset g = (case List g of [] \<Rightarrow> 0 | c # _ \<Rightarrow> Offset (Start c))"

definition collectAdhocComments :: "astFile \<Rightarrow> panic + commentQueue" where
  "collectAdhocComments f =
     (case collect_all (Comments f) [] of
        Inl e \<Rightarrow> Inl e
      | Inr comments \<Rightarrow>
          (let comments' = walk_file f comments
           in if length comments' = 0 then Inr []
              else Inr (sort_key groupOffset (map snd comments'))))"

section \<open>The new-syntax writer\<close>

text \<open>
  The values of the new syntax (\<open>cty.Value\<close>). An object value is a map from attribute
  names to values, kept as an association list with one entry for each name.
\<close>

datatype ctyValue =
    StringVal string
  | NumberIntVal "64 word"
  | NumberFloatVal "64 word"
  | BoolVal bool
  | TupleVal "ctyValue list"
  | ObjectVal "(string \<times> ctyValue) list"

datatype hclTokenType = TokenComment | TokenNewline

datatype hclToken = HclToken (Type: hclTokenType) (Bytes: string)

text \<open>
  A body under construction is the sequence of what was written into it: attributes,
  blocks with their own body, and runs of raw tokens.
\<close>

datatype bodyItem =
    Attribute string ctyValue
  | Block string "string list" "bodyItem list"
  | UnstructuredTokens "hclToken list"

type_synonym body = "bodyItem list"

text \<open>
  Modelled from the spec: the operations of the new-syntax writer (\<open>hclwrite.Body\<close>, not
  part of the repository). Section 6 of the spec asks of it: setting a named attribute
  to a constant value, overwriting a prior value of the same name; appending a new
  labelled block; appending raw comment tokens; appending a raw newline token.
\<close>

definition AppendUnstructuredTokens :: "body \<Rightarrow> hclToken list \<Rightarrow> body" where
  "AppendUnstructuredTokens to tokens = to @ [UnstructuredTokens tokens]"

definition AppendNewline :: "body \<Rightarrow> body" where
  "AppendNewline to = to @ [UnstructuredTokens [HclToken TokenNewline [CHR 0x0A]]]"

fun hasAttribute :: "body \<Rightarrow> string \<Rightarrow> bool" where
  "hasAttribute [] name = False"
| "hasAttribute (Attribute n v # to) name = (n = name \<or> hasAttribute to name)"
| "hasAttribute (x # to) name = hasAttribute to name"

fun replaceAttribute :: "body \<Rightarrow> string \<Rightarrow> ctyValue \<Rightarrow> body" where
  "replaceAttribute [] name val = []"
| "replaceAttribute (Attribute n v # to) name val =
     (if n = name then Attribute n val # replaceAttribute to name val
      else Attribute n v # replaceAttribute to name val)"
| "replaceAttribute (x # to) name val = x # replaceAttribute to name val"

definition SetAttributeValue :: "body \<Rightarrow> string \<Rightarrow> ctyValue \<Rightarrow> body" where
  "SetAttributeValue to name val =
     (if hasAttribute to name then replaceAttribute to name val
      else to @ [Attribute name val])"

definition AppendNewBlock :: "body \<Rightarrow> string \<Rightarrow> string list \<Rightarrow> body \<Rightarrow> body" where
  "AppendNewBlock to name labels newBody = to @ [Block name labels newBody]"

subsection \<open>Writing comments and newlines (comments.go)\<close>

text \<open>
  \<open>writeComments\<close>: nothing for \<open>nil\<close>; otherwise one run of tokens, a comment token and
  a newline token for each comment of the group.
\<close>

fun commentTokens :: "comment list \<Rightarrow> hclToken list" where
  "commentTokens [] = []"
| "commentTokens (comment # cs) =
     HclToken TokenComment (Text comment) # HclToken TokenNewline [CHR 0x0A] # commentTokens cs"

definition writeComments :: "body \<Rightarrow> commentGroup option \<Rightarrow> body" where
  "writeComments to comments =
     (case comments of
        None \<Rightarrow> to
      | Some g \<Rightarrow> AppendUnstructuredTokens to (commentTokens (List g)))"

definition writeNewline :: "body \<Rightarrow> body" where
  "writeNewline to = AppendNewline to"

text \<open>
  \<open>hcl1NodeEndPos\<close>: the last line comment of an item when it has one, else the end of
  its value; the closing bracket of a list or an object; the node's own position
  otherwise.
\<close>

fun hcl1NodeEndPos :: "node \<Rightarrow> pos"
and hcl1NodeEndPos_item :: "objectItem \<Rightarrow> pos" where
  "hcl1NodeEndPos (ObjectItemNode item) = hcl1NodeEndPos_item item"
| "hcl1NodeEndPos (ListType lbrack rbrack ns) = rbrack"
| "hcl1NodeEndPos (ObjectType lbrace rbrace items) = rbrace"
| "hcl1NodeEndPos (LiteralType tok lead line) = TokPos tok"
| "hcl1NodeEndPos (OtherNode k p) = p"
| "hcl1NodeEndPos_item (ObjectItem keys assign val lead line) =
     (case line of
        Some g \<Rightarrow> (if length (List g) > 0 then Start (last (List g)) else hcl1NodeEndPos val)
      | None \<Rightarrow> hcl1NodeEndPos val)"

section \<open>The upgrade\<close>

text \<open>
  \<open>k.Token.Value().(string)\<close>: the value of a key as a string, a type-assertion panic
  when it is none. \<open>item.Keys[0]\<close> is an index panic on an item without keys.
\<close>

definition keyString :: "token \<Rightarrow> panic + string" where
  "keyString k = (case Value k of StringV s \<Rightarrow> Inr s | _ \<Rightarrow> Inl TypeAssertionString)"

definition firstKeyName :: "objectItem \<Rightarrow> panic + string" where
  "firstKeyName item = (case Keys item of [] \<Rightarrow> Inl IndexOutOfRange | k # _ \<Rightarrow> keyString k)"

subsection \<open>upgradeExpressionConstant\<close>

text \<open>
  The type switch of \<open>upgradeExpressionConstant\<close> (an \<open>int64\<close> matches none of the
  cases of the inner switch and falls to its \<open>default\<close>), with its two loops: over the
  elements of a list (\<open>vals[i] = upgradeExpressionConstant(node)\<close>) and over the items
  of an object (\<open>vals[name] = upgradeExpressionConstant(item.Val)\<close>, a later item of
  the same name overwriting an earlier one).
\<close>

fun upgradeExpressionConstant :: "node \<Rightarrow> panic + ctyValue"
and upgradeExpressionConstant_list :: "node list \<Rightarrow> panic + ctyValue list"
and upgradeExpressionConstant_items ::
      "objectItem list \<Rightarrow> (string \<times> ctyValue) list \<Rightarrow> panic + (string \<times> ctyValue) list" where
  "upgradeExpressionConstant (LiteralType tok lead line) =
     (case Value tok of
        StringV v \<Rightarrow> Inr (StringVal v)
      | IntV v \<Rightarrow> Inr (NumberIntVal v)
      | Float64V v \<Rightarrow> Inr (NumberFloatVal v)
      | BoolV v \<Rightarrow> Inr (BoolVal v)
      | Int64V v \<Rightarrow> Inl CannotDeriveExpression
      | OtherV \<Rightarrow> Inl CannotDeriveExpression)"
| "upgradeExpressionConstant (ListType lbrack rbrack ns) =
     (case upgradeExpressionConstant_list ns of
        Inl e \<Rightarrow> Inl e
      | Inr vals \<Rightarrow> Inr (TupleVal vals))"
| "upgradeExpressionConstant (ObjectType lbrace rbrace items) =
     (case upgradeExpressionConstant_items items [] of
        Inl e \<Rightarrow> Inl e
      | Inr vals \<Rightarrow> Inr (ObjectVal vals))"
| "upgradeExpressionConstant (ObjectItemNode item) = Inl CannotDeriveExpression"
| "upgradeExpressionConstant (OtherNode k p) =
     (case k of
        FileK \<Rightarrow> Inl CannotDeriveExpression
      | CommentK \<Rightarrow> Inl CannotDeriveExpression
      | CommentGroupK \<Rightarrow> Inl CannotDeriveExpression
      | ObjectKeyK \<Rightarrow> Inl CannotDeriveExpression
      | ObjectListK \<Rightarrow> Inl UnsupportedNodeType)"
| "upgradeExpressionConstant_list [] = Inr []"
| "upgradeExpressionConstant_list (n # ns) =
     (case upgradeExpressionConstant n of
        Inl e \<Rightarrow> Inl e
      | Inr v \<Rightarrow>
          (case upgradeExpressionConstant_list ns of
             Inl e \<Rightarrow> Inl e
           | Inr vs \<Rightarrow> Inr (v # vs)))"
| "upgradeExpressionConstant_items [] vals = Inr vals"
| "upgradeExpressionConstant_items (ObjectItem keys assign val lead line # items) vals =
     (case firstKeyName (ObjectItem keys assign val lead line) of
        Inl e \<Rightarrow> Inl e
      | Inr name \<Rightarrow>
          (case upgradeExpressionConstant val of
             Inl e \<Rightarrow> Inl e
           | Inr v \<Rightarrow> upgradeExpressionConstant_items items (AList.update name v vals)))"

subsection \<open>upgradeArgument\<close>

definition upgradeArgument :: "objectItem \<Rightarrow> body \<Rightarrow> bool \<Rightarrow> panic + body" where
  "upgradeArgument from to expandEnv =
     (case firstKeyName from of
        Inl e \<Rightarrow> Inl e
      | Inr name \<Rightarrow>
          if expandEnv then Inl ExpandEnvNotSupported
          else (case upgradeExpressionConstant (Val from) of
                  Inl e \<Rightarrow> Inl e
                | Inr val \<Rightarrow> Inr (writeComments (SetAttributeValue to name val) (LineComment from))))"

subsection \<open>upgradeBody and upgradeNestedBlock\<close>

text \<open>The inner loop of \<open>upgradeBody\<close> over the groups taken from the queue.\<close>

fun writeGroups :: "body \<Rightarrow> commentGroup list \<Rightarrow> body" where
  "writeGroups to [] = to"
| "writeGroups to (grp # comments) =
     writeGroups (writeNewline (writeComments to (Some grp))) comments"

text \<open>
  \<open>oldDidExpandEnv\<close>: false, and set to true under \<open>if root\<close> by the \<open>switch\<close> on the
  name.
\<close>

definition oldDidExpandEnv :: "bool \<Rightarrow> string \<Rightarrow> bool" where
  "oldDidExpandEnv root name =
     (if root then
        (if name = ''providers'' \<or> name = ''provisioners'' \<or> name = ''plugin_cache_dir''
         then True else False)
      else False)"

fun isObjectType :: "node \<Rightarrow> bool" where
  "isObjectType (ObjectType lbrace rbrace items) = True"
| "isObjectType n = False"

text \<open>
  \<open>blockSyntax\<close>: no assignment or more than one key; and forced to true when the value
  is not an \<open>ObjectType\<close>.
\<close>

definition blockSyntax :: "objectItem \<Rightarrow> bool" where
  "blockSyntax item =
     (let b = (Line (Assign item) = 0 \<or> length (Keys item) > 1)
      in if \<not> isObjectType (Val item) then True else b)"

text \<open>
  The end of the loop body: a blank line when another item follows more than one line
  below the end of this one. The difference of the two line numbers is Go's \<open>int\<close>
  subtraction, which wraps at 64 bits.
\<close>

definition int_sub :: "int \<Rightarrow> int \<Rightarrow> int" where
  "int_sub a b = sint ((word_of_int a :: 64 word) - word_of_int b)"

definition separate :: "objectItem \<Rightarrow> objectItem list \<Rightarrow> body \<Rightarrow> body" where
  "separate item items to =
     (case items of
        [] \<Rightarrow> to
      | next # _ \<Rightarrow>
          (let thisPos = hcl1NodeEndPos_item item;
               nextPos = ObjectItem_Pos next
           in if int_sub (Line nextPos) (Line thisPos) > 1 then writeNewline to else to))"

text \<open>The labels of a block: the string values of the keys after the first.\<close>

fun labelStrings :: "token list \<Rightarrow> panic + string list" where
  "labelStrings [] = Inr []"
| "labelStrings (k # ks) =
     (case keyString k of
        Inl e \<Rightarrow> Inl e
      | Inr s \<Rightarrow> (case labelStrings ks of Inl e \<Rightarrow> Inl e | Inr ss \<Rightarrow> Inr (s # ss)))"

text \<open>
  \<open>upgradeBody\<close> changes the body \<open>to\<close> and the queue, or panics: the result is the
  panic, or the body and the queue it leaves. The body of a new block starts empty and
  is filled by the recursive call.
\<close>

function upgradeBody :: "objectItem list \<Rightarrow> body \<Rightarrow> commentQueue \<Rightarrow> bool \<Rightarrow> panic + (body \<times> commentQueue)"
and upgradeNestedBlock :: "objectItem \<Rightarrow> body \<Rightarrow> commentQueue \<Rightarrow> panic + (body \<times> commentQueue)" where
  "upgradeBody [] to q root = Inr (to, q)"
| "upgradeBody (item # items) to q root =
     (case TakeBefore q item of
        Inl e \<Rightarrow> Inl e
      | Inr (comments, q1) \<Rightarrow>
          (let to1 = writeComments (writeGroups to comments) (LeadComment item)
           in case firstKeyName item of
                Inl e \<Rightarrow> Inl e
              | Inr name \<Rightarrow>
                  (case (if oldDidExpandEnv root name then
                           (case upgradeArgument item to1 True of
                              Inl e \<Rightarrow> Inl e
                            | Inr to2 \<Rightarrow> Inr (to2, q1))
                         else if blockSyntax item then upgradeNestedBlock item to1 q1
                         else (case upgradeArgument item to1 False of
                                 Inl e \<Rightarrow> Inl e
                               | Inr to2 \<Rightarrow> Inr (to2, q1))) of
                     Inl e \<Rightarrow> Inl e
                   | Inr (to2, q2) \<Rightarrow> upgradeBody items (separate item items to2) q2 root)))"
| "upgradeNestedBlock (ObjectItem keys assign val lead line) to q =
     (case firstKeyName (ObjectItem keys assign val lead line) of
        Inl e \<Rightarrow> Inl e
      | Inr name \<Rightarrow>
          (case labelStrings (tl keys) of
             Inl e \<Rightarrow> Inl e
           | Inr labels \<Rightarrow>
               (case val of
                  ObjectType lbrace rbrace oldObjectList \<Rightarrow>
                    (case upgradeBody oldObjectList [] q False of
                       Inl e \<Rightarrow> Inl e
                     | Inr (newBody, q') \<Rightarrow> Inr (AppendNewBlock to name labels newBody, q'))
                | _ \<Rightarrow> Inl TypeAssertionObjectType)))"
  by pat_completeness auto
termination
  by (relation "measure (\<lambda>x. case x of
                   Inl (items, to, q, root) \<Rightarrow> size_list size items
                 | Inr (item, to, q) \<Rightarrow> size item)") auto

subsection \<open>UpgradeOldHCLConfig\<close>

definition configNeedsUpgrade :: "astFile \<Rightarrow> bool" where
  "configNeedsUpgrade old = True"

text \<open>
  The legacy parser (\<open>hcl1parser.Parse\<close>) and the serialisation of the finished file
  (\<open>newF.Bytes()\<close>) are outside the repository and are parameters: \<open>parse\<close> returns an
  error or a file, \<open>render\<close> the bytes of a body.
\<close>

definition UpgradeOldHCLConfig ::
    "(8 word list \<Rightarrow> 'err + astFile) \<Rightarrow> (body \<Rightarrow> 8 word list) \<Rightarrow> 8 word list \<Rightarrow> panic + 8 word list" where
  "UpgradeOldHCLConfig parse render old =
     (case parse old of
        Inl err \<Rightarrow> Inr old
      | Inr oldF \<Rightarrow>
          if \<not> configNeedsUpgrade oldF then Inr old
          else (case collectAdhocComments oldF of
                  Inl e \<Rightarrow> Inl e
                | Inr adhocComments \<Rightarrow>
                    (case Node oldF of
                       NotObjectList n \<Rightarrow> Inl TypeAssertionObjectList
                     | ObjectList oldRootList \<Rightarrow>
                         (case upgradeBody oldRootList [] adhocComments True of
                            Inl e \<Rightarrow> Inl e
                          | Inr (newBody, q) \<Rightarrow> Inr (render newBody)))))"

section \<open>Notions used to state the properties\<close>

subsection \<open>Well-formed queues\<close>

text \<open>
  A queue is ordered when each of its groups has a first comment, the offsets of the
  groups ascend, and no group occurs twice. A group qualifies for a cutoff position when
  it does not lie after it.
\<close>

definition qualifies :: "pos \<Rightarrow> commentGroup \<Rightarrow> bool" where
  "qualifies pos g = (groupOffset g \<le> Offset pos)"

definition queueOrdered :: "commentQueue \<Rightarrow> bool" where
  "queueOrdered q = (list_all (\<lambda>g. List g \<noteq> []) q \<and> sorted (map groupOffset q) \<and> distinct q)"

text \<open>
  The map of \<open>collectAdhocComments\<close> holds each group under its own position, and each
  position once.
\<close>

definition keyed :: "(pos \<times> commentGroup) list \<Rightarrow> bool" where
  "keyed m = (distinct (map fst m) \<and> list_all (\<lambda>(p, g). CommentGroup_Pos g = Inr p) m)"

subsection \<open>What a taken group writes\<close>


text \<open>
  Two entries of a body are the same construct when they are equal, or are attributes
  of the same name (setting an attribute again overwrites its value in place).
\<close>

fun sameConstruct :: "bodyItem \<Rightarrow> bodyItem \<Rightarrow> bool" where
  "sameConstruct (Attribute n v) y = (case y of Attribute m w \<Rightarrow> n = m | _ \<Rightarrow> False)"
| "sameConstruct x y = (x = y)"


subsection \<open>The token stream of a body\<close>



subsection \<open>The nesting of blocks\<close>

text \<open>
  The blocks of a body, with their type, labels and the blocks nested in them, leaving
  out attributes and raw tokens.
\<close>

datatype blockShape = BlockShape string "string list" "blockShape list"

fun bodyBlocks :: "body \<Rightarrow> blockShape list" where
  "bodyBlocks [] = []"
| "bodyBlocks (Block name labels b # to) = BlockShape name labels (bodyBlocks b) # bodyBlocks to"
| "bodyBlocks (Attribute n v # to) = bodyBlocks to"
| "bodyBlocks (UnstructuredTokens ts # to) = bodyBlocks to"

text \<open>
  The same for a legacy object list, following the spec: an item is block-shaped when it
  has no assignment marker or more than one key; its block has the first key as type,
  the keys after the first as labels, and the block-shaped items of its nested object
  list inside.
\<close>

definition keyText :: "token \<Rightarrow> string" where
  "keyText k = (case Value k of StringV s \<Rightarrow> s | _ \<Rightarrow> [])"

fun itemBlocks :: "objectItem list \<Rightarrow> blockShape list" where
  "itemBlocks [] = []"
| "itemBlocks (ObjectItem keys assign val lead line # items) =
     (if Line assign = 0 \<or> length keys > 1 then
        [BlockShape (case keys of [] \<Rightarrow> [] | k # _ \<Rightarrow> keyText k) (map keyText (tl keys))
           (case val of ObjectType lbrace rbrace nested \<Rightarrow> itemBlocks nested | _ \<Rightarrow> [])]
      else [])
     @ itemBlocks items"

subsection \<open>Example inputs\<close>






text \<open>
  \<open>plugin_cache_dir = "/tmp/plugins"\<close>: a root argument with a plain literal string.
\<close>

definition ex_plugin_cache_dir :: objectItem where
  "ex_plugin_cache_dir =
     ObjectItem [Token (Pos 0 1 1) (StringV ''plugin_cache_dir'')] (Pos 17 1 18)
       (LiteralType (Token (Pos 19 1 20) (StringV ''/tmp/plugins'')) None None) None None"

text \<open>\<open>providers { aws = "${FOO}/bin" }\<close>, written as a block.\<close>

definition ex_providers :: objectItem where
  "ex_providers =
     ObjectItem [Token (Pos 0 1 1) (StringV ''providers'')] (Pos 0 0 0)
       (ObjectType (Pos 10 1 11) (Pos 33 3 1)
          [ObjectItem [Token (Pos 14 2 3) (StringV ''aws'')] (Pos 18 2 7)
             (LiteralType (Token (Pos 20 2 9) (StringV ''${FOO}/bin'')) None None) None None])
       None None"

text \<open>\<open>disable_checkpoint = true\<close> and, on the next line, \<open>disable_checkpoint = false\<close>.\<close>

definition ex_checkpoint :: objectItem where
  "ex_checkpoint =
     ObjectItem [Token (Pos 0 1 1) (StringV ''disable_checkpoint'')] (Pos 19 1 20)
       (LiteralType (Token (Pos 21 1 22) (BoolV True)) None None) None None"

definition ex_checkpoint2 :: objectItem where
  "ex_checkpoint2 =
     ObjectItem [Token (Pos 26 2 1) (StringV ''disable_checkpoint'')] (Pos 45 2 20)
       (LiteralType (Token (Pos 47 2 22) (BoolV False)) None None) None None"

text \<open>
  \<open>host "example.com" { services = { "modules.v1" = "https://example.com/" } }\<close>, the
  block on three lines.
\<close>

definition ex_services :: objectItem where
  "ex_services =
     ObjectItem [Token (Pos 23 2 3) (StringV ''services'')] (Pos 32 2 12)
       (ObjectType (Pos 34 2 14) (Pos 75 2 55)
          [ObjectItem [Token (Pos 36 2 16) (StringV ''modules.v1'')] (Pos 49 2 29)
             (LiteralType (Token (Pos 51 2 31) (StringV ''https://example.com/'')) None None)
             None None])
       None None"

definition ex_host :: objectItem where
  "ex_host =
     ObjectItem [Token (Pos 0 1 1) (StringV ''host''), Token (Pos 5 1 6) (StringV ''example.com'')]
       (Pos 0 0 0) (ObjectType (Pos 19 1 20) (Pos 77 3 1) [ex_services]) None None"

text \<open>\<open>provisioners { }\<close>, written as a block with an empty body.\<close>

definition ex_provisioners :: objectItem where
  "ex_provisioners =
     ObjectItem [Token (Pos 0 1 1) (StringV ''provisioners'')] (Pos 0 0 0)
       (ObjectType (Pos 13 1 14) (Pos 15 1 16) []) None None"

text \<open>
  \<open>outer "x" { inner "y" "z" { services = { ... } } }\<close>: a block in a block, with an
  attribute in the inner one.
\<close>

definition ex_inner :: objectItem where
  "ex_inner =
     ObjectItem [Token (Pos 14 2 3) (StringV ''inner''), Token (Pos 20 2 9) (StringV ''y''),
                 Token (Pos 24 2 13) (StringV ''z'')]
       (Pos 0 0 0) (ObjectType (Pos 28 2 17) (Pos 90 4 3) [ex_services]) None None"

definition ex_outer :: objectItem where
  "ex_outer =
     ObjectItem [Token (Pos 0 1 1) (StringV ''outer''), Token (Pos 6 1 7) (StringV ''x'')]
       (Pos 0 0 0) (ObjectType (Pos 10 1 11) (Pos 92 5 1) [ex_inner]) None None"

text \<open>
  A second definition of \<open>services\<close>, two lines below the first:
  \<open>services = { "modules.v1" = "https://example.org/" }\<close>.
\<close>

definition ex_services2 :: objectItem where
  "ex_services2 =
     ObjectItem [Token (Pos 80 4 3) (StringV ''services'')] (Pos 89 4 12)
       (ObjectType (Pos 91 4 14) (Pos 132 4 55)
          [ObjectItem [Token (Pos 93 4 16) (StringV ''modules.v1'')] (Pos 106 4 29)
             (LiteralType (Token (Pos 108 4 31) (StringV ''https://example.org/'')) None None)
             None None])
       None None"

text \<open>
  The list \<open>["a", true, [7]]\<close>: elements of three different types, the number with the
  \<open>int64\<close> value the token package gives it. \<open>ex_list_strings\<close> is \<open>["a", true, ["b"]]\<close>.
\<close>

definition ex_list :: node where
  "ex_list =
     ListType (Pos 4 1 5) (Pos 19 1 20)
       [LiteralType (Token (Pos 5 1 6) (StringV ''a'')) None None,
        LiteralType (Token (Pos 10 1 11) (BoolV True)) None None,
        ListType (Pos 16 1 17) (Pos 18 1 19)
          [LiteralType (Token (Pos 17 1 18) (Int64V 7)) None None]]"

definition ex_list_strings :: node where
  "ex_list_strings =
     ListType (Pos 4 1 5) (Pos 21 1 22)
       [LiteralType (Token (Pos 5 1 6) (StringV ''a'')) None None,
        LiteralType (Token (Pos 10 1 11) (BoolV True)) None None,
        ListType (Pos 16 1 17) (Pos 20 1 21)
          [LiteralType (Token (Pos 17 1 18) (StringV ''b'')) None None]]"

text \<open>
  \<open>providers { aws = "${FOO}/bin" }\<close> again, placed on the lines below
  \<open>disable_checkpoint = true\<close>.
\<close>

definition ex_providers_below :: objectItem where
  "ex_providers_below =
     ObjectItem [Token (Pos 26 2 1) (StringV ''providers'')] (Pos 0 0 0)
       (ObjectType (Pos 36 2 11) (Pos 59 4 1)
          [ObjectItem [Token (Pos 40 3 3) (StringV ''aws'')] (Pos 44 3 7)
             (LiteralType (Token (Pos 46 3 9) (StringV ''${FOO}/bin'')) None None) None None])
       None None"

section \<open>Properties\<close>

subsection \<open>Unparseable input\<close>

text \<open>
  Claim C3. When the legacy parser fails on the input bytes, \<open>UpgradeOldHCLConfig\<close>
  returns exactly these bytes, with no panic and nothing else produced.
\<close>

theorem unparseable_input_unchanged:
  "parse old = Inl err \<Longrightarrow> UpgradeOldHCLConfig parse render old = Inr old"
  by (simp add: UpgradeOldHCLConfig_def)

theorem unparseable_input_unchanged_witness:
  "(\<lambda>b::8 word list. Inl ''object expected closing RBRACE'' :: string + astFile) [0x61, 0x7B] =
     Inl ''object expected closing RBRACE''
   \<and> UpgradeOldHCLConfig (\<lambda>b. Inl ''object expected closing RBRACE'') (\<lambda>b. []) [0x61, 0x7B] =
     Inr [0x61, 0x7B]"
  using unparseable_input_unchanged
          [of "\<lambda>b. Inl ''object expected closing RBRACE''" "[0x61, 0x7B]"
              "''object expected closing RBRACE''" "\<lambda>b. []"]
  by simp

subsection \<open>The queue of ad hoc comments\<close>

lemma CommentGroup_Pos_nonempty:
  "List g \<noteq> [] \<Longrightarrow> \<exists>p. CommentGroup_Pos g = Inr p \<and> Offset p = groupOffset g"
  by (cases "List g") (simp_all add: CommentGroup_Pos_def groupOffset_def)

lemma TakeBeforePos_loop_takeWhile:
  "list_all (\<lambda>g. List g \<noteq> []) q \<Longrightarrow> i \<le> length q \<Longrightarrow>
   TakeBeforePos_loop q pos i = Inr (i + length (takeWhile (qualifies pos) (drop i q)))"
proof (induction q pos i rule: TakeBeforePos_loop.induct)
  case (1 q toPos i)
  show ?case
  proof (cases "i < length q")
    case False
    with "1.prems" show ?thesis
      by (subst TakeBeforePos_loop.simps) simp
  next
    case True
    then have ne: "List (q ! i) \<noteq> []"
      using "1.prems"(1) by (simp add: list_all_length)
    then obtain p where p: "CommentGroup_Pos (q ! i) = Inr p" "Offset p = groupOffset (q ! i)"
      using CommentGroup_Pos_nonempty by blast
    have dr: "drop i q = q ! i # drop (Suc i) q"
      using True by (simp add: Cons_nth_drop_Suc)
    show ?thesis
    proof (cases "After p toPos")
      case True
      with \<open>i < length q\<close> p dr show ?thesis
        by (subst TakeBeforePos_loop.simps) (simp add: After_def qualifies_def)
    next
      case False
      have "TakeBeforePos_loop q toPos (i + 1) =
            Inr (i + 1 + length (takeWhile (qualifies toPos) (drop (i + 1) q)))"
        using "1.IH"[OF True p(1) False "1.prems"(1)] True by simp
      with False \<open>i < length q\<close> p dr show ?thesis
        by (subst TakeBeforePos_loop.simps) (simp add: After_def qualifies_def)
    qed
  qed
qed

lemma TakeBeforePos_takeWhile:
  assumes "list_all (\<lambda>g. List g \<noteq> []) q"
  shows "TakeBeforePos q pos = Inr (takeWhile (qualifies pos) q, dropWhile (qualifies pos) q)"
proof -
  have l: "TakeBeforePos_loop q pos 0 = Inr (length (takeWhile (qualifies pos) q))"
    using TakeBeforePos_loop_takeWhile[OF assms, of 0 pos] by simp
  show ?thesis
  proof (cases "takeWhile (qualifies pos) q = []")
    case True
    then have "dropWhile (qualifies pos) q = q"
      by (metis append_Nil takeWhile_dropWhile_id)
    with True l show ?thesis by (simp add: TakeBeforePos_def)
  next
    case False
    have "take (length (takeWhile (qualifies pos) q)) q = takeWhile (qualifies pos) q"
      by (metis append_eq_conv_conj takeWhile_dropWhile_id)
    moreover have "drop (length (takeWhile (qualifies pos) q)) q = dropWhile (qualifies pos) q"
      by (metis append_eq_conv_conj takeWhile_dropWhile_id)
    ultimately show ?thesis using False l by (simp add: TakeBeforePos_def)
  qed
qed








lemma set_update_subset: "set (AList.update k v al) \<subseteq> insert (k, v) (set al)"
  by (induction al) auto

lemma keyed_update: "keyed m \<Longrightarrow> CommentGroup_Pos c = Inr p \<Longrightarrow> keyed (AList.update p c m)"
  unfolding keyed_def list_all_iff
  using set_update_subset[of p c m] by (auto simp: distinct_update)

lemma keyed_delete: "keyed m \<Longrightarrow> keyed (AList.delete k m)"
  unfolding keyed_def list_all_iff
  by (auto simp: AList.delete_eq distinct_map_filter)

lemma keyed_fold_delete: "keyed m \<Longrightarrow> keyed (fold (\<lambda>comment m. AList.delete (Start comment) m) cs m)"
  by (induction cs arbitrary: m) (simp_all add: keyed_delete)

lemma keyed_delete_group: "keyed m \<Longrightarrow> keyed (delete_group g m)"
  by (cases g) (simp_all add: delete_group_def keyed_fold_delete)

lemma keyed_walk:
  "keyed m \<Longrightarrow> keyed (walk_node n m)"
  "keyed m \<Longrightarrow> keyed (walk_nodes ns m)"
  "keyed m \<Longrightarrow> keyed (walk_item item m)"
  "keyed m \<Longrightarrow> keyed (walk_items items m)"
  by (induction n m and ns m and item m and items m rule: walk_node_walk_nodes_walk_item_walk_items.induct)
     (simp_all add: keyed_delete_group)

lemma keyed_walk_file: "keyed m \<Longrightarrow> keyed (walk_file f m)"
  by (cases "Node f") (simp_all add: walk_file_def keyed_walk)

lemma keyed_collect_all: "keyed m \<Longrightarrow> collect_all cs m = Inr m' \<Longrightarrow> keyed m'"
proof (induction cs arbitrary: m)
  case Nil
  then show ?case by simp
next
  case (Cons c cs)
  show ?case
  proof (cases "CommentGroup_Pos c")
    case (Inl e)
    with Cons.prems show ?thesis by simp
  next
    case (Inr p)
    have "keyed (AList.update p c m)" using Cons.prems(1) Inr by (rule keyed_update)
    moreover have "collect_all cs (AList.update p c m) = Inr m'" using Cons.prems(2) Inr by simp
    ultimately show ?thesis by (rule Cons.IH)
  qed
qed

lemma keyed_values:
  assumes "keyed m"
  shows "list_all (\<lambda>g. List g \<noteq> []) (map snd m)" and "distinct (map snd m)"
proof -
  have k: "\<And>p g. (p, g) \<in> set m \<Longrightarrow> CommentGroup_Pos g = Inr p"
    using assms by (auto simp: keyed_def list_all_iff)
  show "list_all (\<lambda>g. List g \<noteq> []) (map snd m)"
    unfolding list_all_iff
  proof
    fix g assume "g \<in> set (map snd m)"
    then obtain p where "(p, g) \<in> set m" by auto
    then have "CommentGroup_Pos g = Inr p" by (rule k)
    then show "List g \<noteq> []" by (auto simp: CommentGroup_Pos_def)
  qed
  have "inj_on snd (set m)"
  proof (rule inj_onI)
    fix x y assume x: "x \<in> set m" and y: "y \<in> set m" and e: "snd x = snd y"
    have "CommentGroup_Pos (snd x) = Inr (fst x)" using k[of "fst x" "snd x"] x by simp
    moreover have "CommentGroup_Pos (snd y) = Inr (fst y)" using k[of "fst y" "snd y"] y by simp
    ultimately have "fst x = fst y" using e by simp
    with e show "x = y" by (simp add: prod_eq_iff)
  qed
  moreover have "distinct m" using assms by (simp add: keyed_def distinct_map)
  ultimately show "distinct (map snd m)" by (simp add: distinct_map)
qed

lemma collectAdhocComments_queueOrdered:
  assumes "collectAdhocComments f = Inr q"
  shows "queueOrdered q"
proof -
  obtain m where m: "collect_all (Comments f) [] = Inr m"
    using assms by (cases "collect_all (Comments f) []") (simp_all add: collectAdhocComments_def)
  have "keyed []" by (simp add: keyed_def)
  then have "keyed m" using m by (rule keyed_collect_all)
  then have kw: "keyed (walk_file f m)" by (rule keyed_walk_file)
  have q: "q = sort_key groupOffset (map snd (walk_file f m))"
    using assms m by (auto simp: collectAdhocComments_def Let_def split: if_splits)
  show ?thesis
    unfolding q queueOrdered_def list_all_iff
    using keyed_values[OF kw] by (simp add: list_all_iff)
qed




subsection \<open>The dispatch of an item\<close>

lemma TakeBefore_succeeds:
  "list_all (\<lambda>g. List g \<noteq> []) q \<Longrightarrow> \<exists>comments q1. TakeBefore q item = Inr (comments, q1)"
  by (simp add: TakeBefore_def TakeBeforePos_takeWhile)

lemma upgradeArgument_expandEnv:
  "firstKeyName item = Inr name \<Longrightarrow> upgradeArgument item to True = Inl ExpandEnvNotSupported"
  by (simp add: upgradeArgument_def)

lemma upgradeArgument_expandEnv_aborts: "\<exists>e. upgradeArgument item to True = Inl e"
  by (cases "firstKeyName item") (simp_all add: upgradeArgument_def)

lemma eligible_first_item:
  assumes "firstKeyName item = Inr name" "oldDidExpandEnv root name" "TakeBefore q item = Inr r"
  shows "upgradeBody (item # items) to q root = Inl ExpandEnvNotSupported"
  using assms by (cases r) (simp add: upgradeArgument_def)

lemma eligible_item_aborts:
  "item \<in> set items \<Longrightarrow> firstKeyName item = Inr name \<Longrightarrow> oldDidExpandEnv root name \<Longrightarrow>
   \<exists>e. upgradeBody items to q root = Inl e"
proof (induction items arbitrary: to q)
  case Nil
  then show ?case by simp
next
  case (Cons x xs)
  show ?case
  proof (cases "TakeBefore q x")
    case (Inl e)
    then show ?thesis by simp
  next
    case (Inr r)
    obtain comments q1 where r: "r = (comments, q1)" by (cases r)
    show ?thesis
    proof (cases "firstKeyName x")
      case (Inl e)
      with Inr r show ?thesis by simp
    next
      case n: (Inr n)
      show ?thesis
      proof (cases "x = item")
        case True
        with Cons.prems Inr show ?thesis
          using eligible_first_item[of item name root q r xs to] by simp
      next
        case False
        then have mem: "item \<in> set xs" using Cons.prems(1) by simp
        let ?to1 = "writeComments (writeGroups to comments) (LeadComment x)"
        let ?d = "(if oldDidExpandEnv root n then
                           (case upgradeArgument x ?to1 True of
                              Inl e \<Rightarrow> Inl e
                            | Inr to2 \<Rightarrow> Inr (to2, q1))
                         else if blockSyntax x then upgradeNestedBlock x ?to1 q1
                         else (case upgradeArgument x ?to1 False of
                                 Inl e \<Rightarrow> Inl e
                               | Inr to2 \<Rightarrow> Inr (to2, q1)))"
        show ?thesis
        proof (cases ?d)
          case (Inl e)
          with Inr r n show ?thesis by simp
        next
          case d: (Inr r2)
          obtain to2 q2 where r2: "r2 = (to2, q2)" by (cases r2)
          obtain e where "upgradeBody xs (separate x xs to2) q2 root = Inl e"
            using Cons.IH[OF mem Cons.prems(2,3)] by blast
          with Inr r n d r2 show ?thesis by simp
        qed
      qed
    qed
  qed
qed

lemma upgradeNestedBlock_success_object:
  "upgradeNestedBlock item to q = Inr r \<Longrightarrow> isObjectType (Val item)"
  by (cases item; cases "Val item") (auto split: sum.splits)

lemma upgradeNestedBlock_not_object:
  assumes "firstKeyName item = Inr name" "labelStrings (tl (Keys item)) = Inr labels"
          "\<not> isObjectType (Val item)"
  shows "upgradeNestedBlock item to q = Inl TypeAssertionObjectType"
  using assms by (cases item; cases "Val item") auto

lemma not_object_item_panics:
  assumes "firstKeyName item = Inr name" "\<not> oldDidExpandEnv root name"
          "\<not> isObjectType (Val item)" "labelStrings (tl (Keys item)) = Inr labels"
          "TakeBefore q item = Inr r"
  shows "upgradeBody (item # items) to q root = Inl TypeAssertionObjectType"
  using assms upgradeNestedBlock_not_object[OF assms(1,4,3)]
  by (cases r) (simp add: blockSyntax_def)

lemma upgraded_items_object:
  "upgradeBody items to q root = Inr r \<Longrightarrow> list_all (\<lambda>it. isObjectType (Val it)) items"
proof (induction items arbitrary: to q)
  case Nil
  then show ?case by simp
next
  case (Cons x xs)
  obtain comments q1 where t: "TakeBefore q x = Inr (comments, q1)"
    using Cons.prems by (cases "TakeBefore q x") auto
  obtain n where n: "firstKeyName x = Inr n"
    using Cons.prems t by (cases "firstKeyName x") auto
  let ?to1 = "writeComments (writeGroups to comments) (LeadComment x)"
  have ne: "\<not> oldDidExpandEnv root n"
    using Cons.prems t n by (auto simp: upgradeArgument_def)
  show ?case
  proof (cases "blockSyntax x")
    case True
    obtain to2 q2 where d: "upgradeNestedBlock x ?to1 q1 = Inr (to2, q2)"
      using Cons.prems t n ne True by (cases "upgradeNestedBlock x ?to1 q1") auto
    have "upgradeBody xs (separate x xs to2) q2 root = Inr r"
      using Cons.prems t n ne True d by simp
    then have "list_all (\<lambda>it. isObjectType (Val it)) xs" by (rule Cons.IH)
    with upgradeNestedBlock_success_object[OF d] show ?thesis by simp
  next
    case False
    then have o: "isObjectType (Val x)" by (auto simp: blockSyntax_def Let_def split: if_splits)
    obtain to2 where d: "upgradeArgument x ?to1 False = Inr to2"
      using Cons.prems t n ne False by (cases "upgradeArgument x ?to1 False") auto
    have "upgradeBody xs (separate x xs to2) q1 root = Inr r"
      using Cons.prems t n ne False d by simp
    then have "list_all (\<lambda>it. isObjectType (Val it)) xs" by (rule Cons.IH)
    with o show ?thesis by simp
  qed
qed

lemma TakeBeforePos_loop_panic:
  "TakeBeforePos_loop q p i = Inl e \<Longrightarrow> e = IndexOutOfRange"
proof (induction q p i rule: TakeBeforePos_loop.induct)
  case (1 q toPos i)
  from "1.prems" show ?case
    apply (subst (asm) TakeBeforePos_loop.simps)
    apply (auto split: if_splits sum.splits simp: CommentGroup_Pos_def list.case_eq_if dest: "1.IH")
    done
qed

lemma TakeBefore_panic: "TakeBefore q item = Inl e \<Longrightarrow> e = IndexOutOfRange"
  by (auto simp: TakeBefore_def TakeBeforePos_def split: sum.splits if_splits
           dest: TakeBeforePos_loop_panic)

lemma keyString_panic: "keyString k = Inl e \<Longrightarrow> e = TypeAssertionString"
  by (auto simp: keyString_def split: tokenValue.splits)

lemma firstKeyName_panic:
  "firstKeyName item = Inl e \<Longrightarrow> e = IndexOutOfRange \<or> e = TypeAssertionString"
  by (auto simp: firstKeyName_def split: list.splits dest: keyString_panic)

lemma labelStrings_panic: "labelStrings ks = Inl e \<Longrightarrow> e = TypeAssertionString"
  by (induction ks) (auto split: sum.splits dest: keyString_panic)

lemma upgradeExpressionConstant_no_expandEnv:
  "upgradeExpressionConstant n \<noteq> Inl ExpandEnvNotSupported"
  "upgradeExpressionConstant_list ns \<noteq> Inl ExpandEnvNotSupported"
  "upgradeExpressionConstant_items items vals \<noteq> Inl ExpandEnvNotSupported"
  by (induction n and ns and items vals
        rule: upgradeExpressionConstant_upgradeExpressionConstant_list_upgradeExpressionConstant_items.induct)
     (auto split: sum.splits tokenValue.splits nodeKind.splits dest: firstKeyName_panic)

lemma upgradeArgument_no_expandEnv:
  "upgradeArgument item to False \<noteq> Inl ExpandEnvNotSupported"
  using upgradeExpressionConstant_no_expandEnv(1)[of "Val item"]
  by (auto simp: upgradeArgument_def split: sum.splits dest: firstKeyName_panic)

lemma expandEnv_panic_only_eligible:
  "upgradeBody items to q root = Inl ExpandEnvNotSupported \<longrightarrow>
     root \<and> (\<exists>item\<in>set items. \<exists>name. firstKeyName item = Inr name \<and> oldDidExpandEnv True name)"
  "upgradeNestedBlock item to q \<noteq> Inl ExpandEnvNotSupported"
proof (induction items to q root and item to q rule: upgradeBody_upgradeNestedBlock.induct)
  case (1 to q root)
  then show ?case by simp
next
  case (2 item items to q root)
  show ?case
  proof
    assume a: "upgradeBody (item # items) to q root = Inl ExpandEnvNotSupported"
    obtain comments q1 where t: "TakeBefore q item = Inr (comments, q1)"
      using a by (cases "TakeBefore q item") (auto dest: TakeBefore_panic)
    obtain n where n: "firstKeyName item = Inr n"
      using a t by (cases "firstKeyName item") (auto dest: firstKeyName_panic)
    let ?to1 = "writeComments (writeGroups to comments) (LeadComment item)"
    show "root \<and> (\<exists>item\<in>set (item # items). \<exists>name. firstKeyName item = Inr name \<and> oldDidExpandEnv True name)"
    proof (cases "oldDidExpandEnv root n")
      case True
      then have "root" "oldDidExpandEnv True n" by (auto simp: oldDidExpandEnv_def split: if_splits)
      with n show ?thesis by auto
    next
      case ne: False
      show ?thesis
      proof (cases "blockSyntax item")
        case True
        have nb: "upgradeNestedBlock item ?to1 q1 \<noteq> Inl ExpandEnvNotSupported"
          using "2.IH"(1)[OF t refl refl n ne True] by simp
        then obtain to2 q2 where d: "upgradeNestedBlock item ?to1 q1 = Inr (to2, q2)"
          using a t n ne True by (cases "upgradeNestedBlock item ?to1 q1") auto
        have r: "upgradeBody items (separate item items to2) q2 root = Inl ExpandEnvNotSupported"
          using a t n ne True d by simp
        have "root \<and> (\<exists>item\<in>set items. \<exists>name. firstKeyName item = Inr name \<and> oldDidExpandEnv True name)"
          using "2.IH"(2)[OF t refl refl n _ refl] r ne True d by simp
        then show ?thesis by auto
      next
        case False
        obtain to2 where d: "upgradeArgument item ?to1 False = Inr to2"
          using a t n ne False upgradeArgument_no_expandEnv[of item ?to1]
          by (cases "upgradeArgument item ?to1 False") auto
        have r: "upgradeBody items (separate item items to2) q1 root = Inl ExpandEnvNotSupported"
          using a t n ne False d by simp
        have "root \<and> (\<exists>item\<in>set items. \<exists>name. firstKeyName item = Inr name \<and> oldDidExpandEnv True name)"
          using "2.IH"(2)[OF t refl refl n _ refl] r ne False d by simp
        then show ?thesis by auto
      qed
    qed
  qed
next
  case (3 keys assign val lead line to q)
  show ?case
  proof (cases val)
    case (ObjectType lb rb nested)
    with 3 show ?thesis
      by (auto split: sum.splits dest: firstKeyName_panic labelStrings_panic simp: oldDidExpandEnv_def)
  qed (auto split: sum.splits dest: firstKeyName_panic labelStrings_panic)
qed

lemma TakeBefore_suffix: "TakeBefore q item = Inr (comments, q1) \<Longrightarrow> \<exists>k. q1 = drop k q"
  unfolding TakeBefore_def TakeBeforePos_def
  by (auto split: sum.splits if_splits intro: exI[of _ 0])

lemma upgradeBody_queue_suffix:
  "upgradeBody items to q root = Inr (to', q') \<longrightarrow> (\<exists>k. q' = drop k q)"
  "upgradeNestedBlock item to q = Inr (to', q') \<longrightarrow> (\<exists>k. q' = drop k q)"
proof (induction items to q root and item to q arbitrary: to' q' and to' q'
         rule: upgradeBody_upgradeNestedBlock.induct)
  case (1 to q root)
  then show ?case by (auto intro: exI[of _ 0])
next
  case (2 item items to q root)
  show ?case
  proof
    assume a: "upgradeBody (item # items) to q root = Inr (to', q')"
    obtain comments q1 where t: "TakeBefore q item = Inr (comments, q1)"
      using a by (cases "TakeBefore q item") auto
    obtain n where n: "firstKeyName item = Inr n"
      using a t by (cases "firstKeyName item") auto
    let ?to1 = "writeComments (writeGroups to comments) (LeadComment item)"
    have ne: "\<not> oldDidExpandEnv root n"
      using a t n by (auto simp: upgradeArgument_def)
    obtain k1 where k1: "q1 = drop k1 q" using TakeBefore_suffix[OF t] by blast
    show "\<exists>k. q' = drop k q"
    proof (cases "blockSyntax item")
      case True
      obtain to2 q2 where d: "upgradeNestedBlock item ?to1 q1 = Inr (to2, q2)"
        using a t n ne True by (cases "upgradeNestedBlock item ?to1 q1") auto
      obtain k2 where k2: "q2 = drop k2 q1"
        using "2.IH"(1)[OF t refl refl n ne True, of to2 q2] d by auto
      have r: "upgradeBody items (separate item items to2) q2 root = Inr (to', q')"
        using a t n ne True d by simp
      obtain k3 where "q' = drop k3 q2"
        using "2.IH"(2)[OF t refl refl n _ refl, of to2 q2 to' q'] r ne True d by auto
      with k1 k2 show ?thesis by auto
    next
      case False
      obtain to2 where d: "upgradeArgument item ?to1 False = Inr to2"
        using a t n ne False by (cases "upgradeArgument item ?to1 False") auto
      have r: "upgradeBody items (separate item items to2) q1 root = Inr (to', q')"
        using a t n ne False d by simp
      obtain k3 where "q' = drop k3 q1"
        using "2.IH"(2)[OF t refl refl n _ refl, of to2 q1 to' q'] r ne False d by auto
      with k1 show ?thesis by auto
    qed
  qed
next
  case (3 keys assign val lead line to q)
  show ?case
  proof
    assume a: "upgradeNestedBlock (ObjectItem keys assign val lead line) to q = Inr (to', q')"
    obtain name where n: "firstKeyName (ObjectItem keys assign val lead line) = Inr name"
      using a by (cases "firstKeyName (ObjectItem keys assign val lead line)") auto
    obtain labels where l: "labelStrings (tl keys) = Inr labels"
      using a n by (cases "labelStrings (tl keys)") auto
    obtain lb rb nested where v: "val = ObjectType lb rb nested"
      using a n l by (cases val) auto
    obtain newBody where b: "upgradeBody nested [] q False = Inr (newBody, q')"
      using a n l v by (cases "upgradeBody nested [] q False") auto
    show "\<exists>k. q' = drop k q"
      using "3.IH"[OF n l v, of newBody q'] b by simp
  qed
qed

lemma upgradeBody_queue_nonempty:
  assumes "upgradeBody items to q root = Inr (to', q')" "list_all (\<lambda>g. List g \<noteq> []) q"
  shows "list_all (\<lambda>g. List g \<noteq> []) q'"
proof -
  obtain k where "q' = drop k q" using upgradeBody_queue_suffix(1) assms(1) by blast
  with assms(2) show ?thesis
    by (auto simp: list_all_iff dest: in_set_dropD)
qed

lemma separate_append:
  "xs \<noteq> [] \<Longrightarrow> separate x (xs @ ys) to = separate x xs to"
  by (cases xs) (simp_all add: separate_def)

lemma upgradeBody_prefix:
  "upgradeBody pre to q root = Inr (to1, q1) \<Longrightarrow>
   \<exists>to1'. upgradeBody (pre @ ys) to q root = upgradeBody ys to1' q1 root"
proof (induction pre arbitrary: to q)
  case Nil
  then show ?case by auto
next
  case (Cons x xs)
  obtain comments q0 where t: "TakeBefore q x = Inr (comments, q0)"
    using Cons.prems by (cases "TakeBefore q x") auto
  obtain n where n: "firstKeyName x = Inr n"
    using Cons.prems t by (cases "firstKeyName x") auto
  let ?to1 = "writeComments (writeGroups to comments) (LeadComment x)"
  let ?d = "(if oldDidExpandEnv root n then
              (case upgradeArgument x ?to1 True of Inl e \<Rightarrow> Inl e | Inr to2 \<Rightarrow> Inr (to2, q0))
            else if blockSyntax x then upgradeNestedBlock x ?to1 q0
            else (case upgradeArgument x ?to1 False of Inl e \<Rightarrow> Inl e | Inr to2 \<Rightarrow> Inr (to2, q0)))"
  obtain to2 q2 where d: "?d = Inr (to2, q2)"
    using Cons.prems t n by (cases ?d) auto
  have r: "upgradeBody xs (separate x xs to2) q2 root = Inr (to1, q1)"
    using Cons.prems t n d by simp
  have u: "upgradeBody ((x # xs) @ ys) to q root = upgradeBody (xs @ ys) (separate x (xs @ ys) to2) q2 root"
    using t n d by simp
  show ?case
  proof (cases "xs = []")
    case True
    with r have "q1 = q2" by simp
    with u True show ?thesis by auto
  next
    case False
    obtain to1' where "upgradeBody (xs @ ys) (separate x xs to2) q2 root = upgradeBody ys to1' q1 root"
      using Cons.IH[OF r] by blast
    with u separate_append[OF False] show ?thesis by auto
  qed
qed

lemma eligible_item_after_prefix:
  assumes "upgradeBody pre to q root = Inr (to1, q1)" "list_all (\<lambda>g. List g \<noteq> []) q"
          "firstKeyName item = Inr name" "oldDidExpandEnv root name"
  shows "upgradeBody (pre @ item # rest) to q root = Inl ExpandEnvNotSupported"
proof -
  obtain to1' where p: "upgradeBody (pre @ item # rest) to q root = upgradeBody (item # rest) to1' q1 root"
    using upgradeBody_prefix[OF assms(1)] by blast
  have "list_all (\<lambda>g. List g \<noteq> []) q1"
    using assms(1,2) by (rule upgradeBody_queue_nonempty)
  then obtain comments q2 where t: "TakeBefore q1 item = Inr (comments, q2)"
    using TakeBefore_succeeds by blast
  have "upgradeBody (item # rest) to1' q1 root = Inl ExpandEnvNotSupported"
    using assms(3,4) t by (rule eligible_first_item)
  with p show ?thesis by simp
qed

lemma UpgradeOldHCLConfig_eligible_aborts:
  assumes "parse old = Inr f" "Node f = ObjectList items" "item \<in> set items"
          "firstKeyName item = Inr name" "oldDidExpandEnv True name"
  shows "(\<exists>e. UpgradeOldHCLConfig parse render old = Inl e)
         \<and> (\<forall>pre rest q r. items = pre @ item # rest \<and> collectAdhocComments f = Inr q
                 \<and> upgradeBody pre [] q True = Inr r \<longrightarrow>
               UpgradeOldHCLConfig parse render old = Inl ExpandEnvNotSupported)"
proof
  show "\<exists>e. UpgradeOldHCLConfig parse render old = Inl e"
  proof (cases "collectAdhocComments f")
    case (Inl e)
    with assms(1) show ?thesis by (simp add: UpgradeOldHCLConfig_def configNeedsUpgrade_def)
  next
    case (Inr q)
    obtain e where "upgradeBody items [] q True = Inl e"
      using eligible_item_aborts[OF assms(3,4,5)] by blast
    with assms(1,2) Inr show ?thesis
      by (simp add: UpgradeOldHCLConfig_def configNeedsUpgrade_def)
  qed
  show "\<forall>pre rest q r. items = pre @ item # rest \<and> collectAdhocComments f = Inr q
                 \<and> upgradeBody pre [] q True = Inr r \<longrightarrow>
               UpgradeOldHCLConfig parse render old = Inl ExpandEnvNotSupported"
  proof (intro allI impI)
    fix pre rest q r
    assume a: "items = pre @ item # rest \<and> collectAdhocComments f = Inr q
                 \<and> upgradeBody pre [] q True = Inr r"
    then have "queueOrdered q" using collectAdhocComments_queueOrdered[of f q] by simp
    then have ne: "list_all (\<lambda>g. List g \<noteq> []) q" by (simp add: queueOrdered_def)
    obtain to1 q1 where r: "r = (to1, q1)" by (cases r)
    from a have i: "items = pre @ item # rest" by simp
    from a r have p: "upgradeBody pre [] q True = Inr (to1, q1)" by simp
    have u: "upgradeBody items [] q True = Inl ExpandEnvNotSupported"
      unfolding i using p ne assms(4,5) by (rule eligible_item_after_prefix)
    from a have c: "collectAdhocComments f = Inr q" by simp
    show "UpgradeOldHCLConfig parse render old = Inl ExpandEnvNotSupported"
      by (simp add: UpgradeOldHCLConfig_def configNeedsUpgrade_def u c assms(1,2)
               del: upgradeBody.simps)
  qed
qed

text \<open>
  A root document whose only item is \<open>plugin_cache_dir = "/tmp/plugins"\<close>, a plain
  literal without any \<open>$VAR\<close> marker: the upgrade ends in the panic of the unsupported
  ExpandEnv path and emits no attribute.
\<close>

theorem plugin_cache_dir_literal_counterexample:
  "upgradeBody [ex_plugin_cache_dir] [] [] True = Inl ExpandEnvNotSupported
   \<and> UpgradeOldHCLConfig (\<lambda>b. Inr (File (ObjectList [ex_plugin_cache_dir]) []) :: string + astFile)
        (\<lambda>b. []) [] = Inl ExpandEnvNotSupported"
  by code_simp

text \<open>
  Claim C1, as amended. For every parsed document whose root list contains an item named
  \<open>plugin_cache_dir\<close>, whatever its value (a plain literal string without \<open>$VAR\<close>
  markers too), \<open>UpgradeOldHCLConfig\<close> ends in a panic and emits nothing. When the
  comments were collected and the items before it upgrade without panic, the panic is
  the one of the unsupported ExpandEnv path.
\<close>

theorem plugin_cache_dir_aborts:
  assumes "parse old = Inr f" "Node f = ObjectList items" "item \<in> set items"
          "firstKeyName item = Inr ''plugin_cache_dir''"
  shows "(\<exists>e. UpgradeOldHCLConfig parse render old = Inl e)
         \<and> (\<forall>pre rest q r. items = pre @ item # rest \<and> collectAdhocComments f = Inr q
                 \<and> upgradeBody pre [] q True = Inr r \<longrightarrow>
               UpgradeOldHCLConfig parse render old = Inl ExpandEnvNotSupported)"
  using assms by (rule UpgradeOldHCLConfig_eligible_aborts) (simp add: oldDidExpandEnv_def)

theorem plugin_cache_dir_aborts_witness:
  "firstKeyName ex_plugin_cache_dir = Inr ''plugin_cache_dir''
   \<and> collectAdhocComments (File (ObjectList [ex_plugin_cache_dir]) []) = Inr []
   \<and> UpgradeOldHCLConfig (\<lambda>b. Inr (File (ObjectList [ex_plugin_cache_dir]) []) :: string + astFile)
        (\<lambda>b. []) [0x70] = Inl ExpandEnvNotSupported"
proof -
  have k: "firstKeyName ex_plugin_cache_dir = Inr ''plugin_cache_dir''" by code_simp
  have c: "collectAdhocComments (File (ObjectList [ex_plugin_cache_dir]) []) = Inr []" by code_simp
  have p: "upgradeBody [] [] [] True = Inr ([], [])" by simp
  have "\<forall>pre rest q r. [ex_plugin_cache_dir] = pre @ ex_plugin_cache_dir # rest
          \<and> collectAdhocComments (File (ObjectList [ex_plugin_cache_dir]) []) = Inr q
          \<and> upgradeBody pre [] q True = Inr r \<longrightarrow>
        UpgradeOldHCLConfig (\<lambda>b. Inr (File (ObjectList [ex_plugin_cache_dir]) []) :: string + astFile)
          (\<lambda>b. []) [0x70] = Inl ExpandEnvNotSupported"
    using plugin_cache_dir_aborts
            [of "\<lambda>b. Inr (File (ObjectList [ex_plugin_cache_dir]) []) :: string + astFile" "[0x70]"
                "File (ObjectList [ex_plugin_cache_dir]) []" "[ex_plugin_cache_dir]"
                ex_plugin_cache_dir "\<lambda>b. []", THEN conjunct2] k
    by (simp only: astFile.sel list.set insert_iff simp_thms True_implies_equals)
  then have "[ex_plugin_cache_dir] = [] @ ex_plugin_cache_dir # []
          \<and> collectAdhocComments (File (ObjectList [ex_plugin_cache_dir]) []) = Inr []
          \<and> upgradeBody [] [] [] True = Inr ([], []) \<longrightarrow>
        UpgradeOldHCLConfig (\<lambda>b. Inr (File (ObjectList [ex_plugin_cache_dir]) []) :: string + astFile)
          (\<lambda>b. []) [0x70] = Inl ExpandEnvNotSupported"
    by blast
  with c p have "UpgradeOldHCLConfig (\<lambda>b. Inr (File (ObjectList [ex_plugin_cache_dir]) []) :: string + astFile)
        (\<lambda>b. []) [0x70] = Inl ExpandEnvNotSupported"
    by simp
  with k c show ?thesis by simp
qed

text \<open>
  For every parsed document whose root list contains an item named \<open>providers\<close>,
  whatever its value (so also one holding a \<open>${FOO}\<close> sequence), \<open>UpgradeOldHCLConfig\<close>
  ends in a panic and returns no output. When the comments were collected and the items
  before it upgrade without panic, the panic is the one of the unsupported ExpandEnv
  path.
\<close>

lemma providers_item_aborts:
  assumes "parse old = Inr f" "Node f = ObjectList items" "item \<in> set items"
          "firstKeyName item = Inr ''providers''"
  shows "(\<exists>e. UpgradeOldHCLConfig parse render old = Inl e)
         \<and> (\<forall>pre rest q r. items = pre @ item # rest \<and> collectAdhocComments f = Inr q
                 \<and> upgradeBody pre [] q True = Inr r \<longrightarrow>
               UpgradeOldHCLConfig parse render old = Inl ExpandEnvNotSupported)"
  using assms by (rule UpgradeOldHCLConfig_eligible_aborts) (simp add: oldDidExpandEnv_def)

text \<open>
  Claim C2 at a failing input. The root document
  \<open>disable_checkpoint = true\<close> followed by \<open>providers { aws = "${FOO}/bin" }\<close> does abort,
  but not on the unsupported ExpandEnv path: the first item has a literal value, is
  forced to block syntax, and the type assertion of \<open>upgradeNestedBlock\<close> panics before
  the \<open>providers\<close> item is reached. With the \<open>providers\<close> item alone the panic is the one
  of the ExpandEnv path.
\<close>

theorem providers_after_literal_panics:
  "upgradeBody [ex_checkpoint, ex_providers_below] [] [] True = Inl TypeAssertionObjectType
   \<and> UpgradeOldHCLConfig
        (\<lambda>b. Inr (File (ObjectList [ex_checkpoint, ex_providers_below]) []) :: string + astFile)
        (\<lambda>b. []) [] = Inl TypeAssertionObjectType
   \<and> upgradeBody [ex_providers_below] [] [] True = Inl ExpandEnvNotSupported"
  by code_simp

text \<open>
  Claim C4. \<open>oldDidExpandEnv\<close> holds exactly for a root list and one of the names
  \<open>providers\<close>, \<open>provisioners\<close>, \<open>plugin_cache_dir\<close>. Seen from outside: the panic of
  the ExpandEnv path never comes out of a list that is not the root nor out of a nested
  block; when it comes out of the root list, one of its items has one of the three
  names; and a list of one item ends in that panic exactly when it is the root and the
  item has one of the three names, whatever the item's value.
\<close>

theorem substitution_eligibility:
  "(oldDidExpandEnv root name \<longleftrightarrow>
      root \<and> name \<in> {''providers'', ''provisioners'', ''plugin_cache_dir''})
   \<and> upgradeBody items to q False \<noteq> Inl ExpandEnvNotSupported
   \<and> upgradeNestedBlock item to q \<noteq> Inl ExpandEnvNotSupported
   \<and> (upgradeBody items to q True = Inl ExpandEnvNotSupported \<longrightarrow>
        (\<exists>it\<in>set items. \<exists>n. firstKeyName it = Inr n
            \<and> n \<in> {''providers'', ''provisioners'', ''plugin_cache_dir''}))
   \<and> (firstKeyName item = Inr name \<and> list_all (\<lambda>g. List g \<noteq> []) q \<longrightarrow>
        (upgradeBody [item] to q root = Inl ExpandEnvNotSupported \<longleftrightarrow>
           root \<and> name \<in> {''providers'', ''provisioners'', ''plugin_cache_dir''}))"
proof -
  have e: "\<And>r n. oldDidExpandEnv r n \<longleftrightarrow>
      r \<and> n \<in> {''providers'', ''provisioners'', ''plugin_cache_dir''}"
    by (simp add: oldDidExpandEnv_def)
  have a: "upgradeBody items to q False \<noteq> Inl ExpandEnvNotSupported"
    using expandEnv_panic_only_eligible(1)[of items to q False] by auto
  have b: "upgradeNestedBlock item to q \<noteq> Inl ExpandEnvNotSupported"
    by (rule expandEnv_panic_only_eligible(2))
  have c: "upgradeBody items to q True = Inl ExpandEnvNotSupported \<longrightarrow>
        (\<exists>it\<in>set items. \<exists>n. firstKeyName it = Inr n
            \<and> n \<in> {''providers'', ''provisioners'', ''plugin_cache_dir''})"
    using expandEnv_panic_only_eligible(1)[of items to q True] by (simp add: e)
  have d: "firstKeyName item = Inr name \<and> list_all (\<lambda>g. List g \<noteq> []) q \<longrightarrow>
        (upgradeBody [item] to q root = Inl ExpandEnvNotSupported \<longleftrightarrow>
           root \<and> name \<in> {''providers'', ''provisioners'', ''plugin_cache_dir''})"
  proof
    assume h: "firstKeyName item = Inr name \<and> list_all (\<lambda>g. List g \<noteq> []) q"
    then obtain comments q1 where t: "TakeBefore q item = Inr (comments, q1)"
      using TakeBefore_succeeds[of q item] by blast
    let ?to1 = "writeComments (writeGroups to comments) (LeadComment item)"
    show "upgradeBody [item] to q root = Inl ExpandEnvNotSupported \<longleftrightarrow>
           root \<and> name \<in> {''providers'', ''provisioners'', ''plugin_cache_dir''}"
    proof (cases "oldDidExpandEnv root name")
      case True
      have "upgradeBody [item] to q root = Inl ExpandEnvNotSupported"
        using h t True by (intro eligible_first_item[of item name root q "(comments, q1)"]) simp_all
      with True show ?thesis by (simp add: e del: upgradeBody.simps)
    next
      case False
      have "upgradeBody [item] to q root \<noteq> Inl ExpandEnvNotSupported"
      proof (cases "blockSyntax item")
        case True
        show ?thesis
        proof (cases "upgradeNestedBlock item ?to1 q1")
          case (Inl x)
          with expandEnv_panic_only_eligible(2)[of item ?to1 q1] h t False True
          show ?thesis by simp
        next
          case (Inr r)
          obtain to2 q2 where "r = (to2, q2)" by (cases r)
          with Inr h t False True
          show ?thesis by simp
        qed
      next
        case nb: False
        show ?thesis
        proof (cases "upgradeArgument item ?to1 False")
          case (Inl x)
          with upgradeArgument_no_expandEnv[of item ?to1] h t False nb
          show ?thesis by simp
        next
          case (Inr to2)
          with h t False nb
          show ?thesis by simp
        qed
      qed
      with False show ?thesis by (simp add: e del: upgradeBody.simps)
    qed
  qed
  show ?thesis
    apply (intro conjI)
        apply (rule e)
       apply (rule a)
      apply (rule b)
     apply (rule c)
    apply (rule d)
    done
qed

theorem substitution_eligibility_witness:
  "oldDidExpandEnv True ''providers'' \<and> \<not> oldDidExpandEnv False ''providers''
   \<and> \<not> oldDidExpandEnv True ''credentials''
   \<and> upgradeBody [ex_providers] [] [] True = Inl ExpandEnvNotSupported
   \<and> upgradeBody [ex_providers] [] [] False = Inl TypeAssertionObjectType"
proof -
  have k: "firstKeyName ex_providers = Inr ''providers''" by code_simp
  have t: "upgradeBody [ex_providers] [] [] True = Inl ExpandEnvNotSupported"
    using substitution_eligibility
            [where root = True and name = "''providers''" and item = ex_providers
               and q = "[]" and to = "[]" and items = "[]"] k
    by (simp del: upgradeBody.simps)
  have a: "oldDidExpandEnv True ''providers''"
    using substitution_eligibility [where root = True and name = "''providers''"] by simp
  have b: "\<not> oldDidExpandEnv False ''providers''"
    using substitution_eligibility [where root = False and name = "''providers''"] by simp
  have c: "\<not> oldDidExpandEnv True ''credentials''"
    using substitution_eligibility [where root = True and name = "''credentials''"] by simp
  have f: "upgradeBody [ex_providers] [] [] False = Inl TypeAssertionObjectType" by code_simp
  from a b c t f show ?thesis by (simp del: upgradeBody.simps)
qed

text \<open>
  Claim C10. An item that is not substitution-eligible and whose value is not an
  \<open>ObjectType\<close> is classified as block syntax and goes to \<open>upgradeNestedBlock\<close>, whose
  type assertion on the value panics: the upgrade ends in that panic and no attribute is
  emitted. The argument path without ExpandEnv is taken only when \<open>blockSyntax\<close> is
  false, which needs an \<open>ObjectType\<close> value; and a list that is upgraded without panic
  has only items with \<open>ObjectType\<close> values.
\<close>

theorem non_object_value_panics:
  "(firstKeyName item = Inr name \<and> \<not> oldDidExpandEnv root name \<and> \<not> isObjectType (Val item)
      \<and> labelStrings (tl (Keys item)) = Inr labels \<and> list_all (\<lambda>g. List g \<noteq> []) q \<longrightarrow>
      blockSyntax item \<and> upgradeBody (item # items) to q root = Inl TypeAssertionObjectType)
   \<and> (\<not> blockSyntax item' \<longrightarrow> isObjectType (Val item'))
   \<and> (upgradeBody items' to' q' root' = Inr r \<longrightarrow> list_all (\<lambda>it. isObjectType (Val it)) items')"
proof (intro conjI impI)
  assume h: "firstKeyName item = Inr name \<and> \<not> oldDidExpandEnv root name \<and> \<not> isObjectType (Val item)
      \<and> labelStrings (tl (Keys item)) = Inr labels \<and> list_all (\<lambda>g. List g \<noteq> []) q"
  then show "blockSyntax item" by (simp add: blockSyntax_def)
  from h obtain comments q1 where t: "TakeBefore q item = Inr (comments, q1)"
    using TakeBefore_succeeds[of q item] by blast
  from h show "upgradeBody (item # items) to q root = Inl TypeAssertionObjectType"
    by (intro not_object_item_panics[where name = name and labels = labels and r = "(comments, q1)"])
       (simp_all add: t)
next
  assume "\<not> blockSyntax item'"
  then show "isObjectType (Val item')"
    by (auto simp: blockSyntax_def Let_def split: if_splits)
next
  assume "upgradeBody items' to' q' root' = Inr r"
  then show "list_all (\<lambda>it. isObjectType (Val it)) items'"
    by (rule upgraded_items_object)
qed

theorem non_object_value_panics_witness:
  "firstKeyName ex_checkpoint = Inr ''disable_checkpoint''
   \<and> \<not> oldDidExpandEnv True ''disable_checkpoint'' \<and> \<not> isObjectType (Val ex_checkpoint)
   \<and> blockSyntax ex_checkpoint
   \<and> upgradeBody [ex_checkpoint] [] [] True = Inl TypeAssertionObjectType
   \<and> \<not> blockSyntax ex_services \<and> isObjectType (Val ex_services)
   \<and> upgradeBody [ex_host] [] [] True =
       Inr ([Block ''host'' [''example.com'']
               [Attribute ''services'' (ObjectVal [(''modules.v1'', StringVal ''https://example.com/'')])]], [])
   \<and> isObjectType (Val ex_host)"
proof -
  have k: "firstKeyName ex_checkpoint = Inr ''disable_checkpoint''" by code_simp
  have e: "\<not> oldDidExpandEnv True ''disable_checkpoint''" by code_simp
  have o: "\<not> isObjectType (Val ex_checkpoint)" by code_simp
  have l: "labelStrings (tl (Keys ex_checkpoint)) = Inr []" by code_simp
  have s: "\<not> blockSyntax ex_services" by code_simp
  have u: "upgradeBody [ex_host] [] [] True =
       Inr ([Block ''host'' [''example.com'']
               [Attribute ''services'' (ObjectVal [(''modules.v1'', StringVal ''https://example.com/'')])]], [])"
    by code_simp
  note w = non_object_value_panics
            [where item = ex_checkpoint and name = "''disable_checkpoint''" and root = True
               and labels = "[]" and q = "[]" and items = "[]" and to = "[]"
               and item' = ex_services and items' = "[ex_host]" and to' = "[]" and q' = "[]"
               and root' = True
               and r = "([Block ''host'' [''example.com'']
               [Attribute ''services'' (ObjectVal [(''modules.v1'', StringVal ''https://example.com/'')])]], [])"]
  have 1: "blockSyntax ex_checkpoint \<and> upgradeBody [ex_checkpoint] [] [] True = Inl TypeAssertionObjectType"
    using w k e o l by (simp del: upgradeBody.simps)
  have 2: "isObjectType (Val ex_services)"
    using w s by (simp del: upgradeBody.simps)
  have 3: "isObjectType (Val ex_host)"
    using w u by (simp del: upgradeBody.simps)
  from k e o 1 s 2 u 3 show ?thesis by (simp del: upgradeBody.simps)
qed

subsection \<open>Lists become tuples\<close>

lemma upgradeExpressionConstant_list_all2:
  "upgradeExpressionConstant_list ns = Inr vs \<longleftrightarrow>
     list_all2 (\<lambda>n v. upgradeExpressionConstant n = Inr v) ns vs"
proof (induction ns arbitrary: vs)
  case Nil
  then show ?case by auto
next
  case (Cons n ns)
  show ?case
  proof (cases "upgradeExpressionConstant n")
    case (Inl e)
    then show ?thesis by (auto simp: list_all2_Cons1)
  next
    case v: (Inr v)
    show ?thesis
    proof (cases "upgradeExpressionConstant_list ns")
      case (Inl e)
      with v Cons.IH show ?thesis by (auto simp: list_all2_Cons1)
    next
      case (Inr ws)
      with v Cons.IH show ?thesis by (auto simp: list_all2_Cons1)
    qed
  qed
qed

text \<open>
  \<open>upgradeExpressionConstant\<close> turns a list into a value exactly when that value is the
  tuple of the conversions of its elements: as many elements as the list has, the i-th
  being the conversion of the i-th element of the list. When an element has no
  conversion, its panic is the result.
\<close>

lemma list_converts_elementwise:
  "upgradeExpressionConstant (ListType lbrack rbrack ns) = Inr v \<longleftrightarrow>
     (\<exists>vs. v = TupleVal vs \<and> length vs = length ns
         \<and> (\<forall>i<length ns. upgradeExpressionConstant (ns ! i) = Inr (vs ! i)))"
proof
  assume a: "upgradeExpressionConstant (ListType lbrack rbrack ns) = Inr v"
  then obtain vs where vs: "upgradeExpressionConstant_list ns = Inr vs" "v = TupleVal vs"
    by (cases "upgradeExpressionConstant_list ns") auto
  from vs(1) have "list_all2 (\<lambda>n v. upgradeExpressionConstant n = Inr v) ns vs"
    by (simp add: upgradeExpressionConstant_list_all2)
  then have "length vs = length ns \<and> (\<forall>i<length ns. upgradeExpressionConstant (ns ! i) = Inr (vs ! i))"
    by (simp add: list_all2_conv_all_nth)
  with vs(2) show "\<exists>vs. v = TupleVal vs \<and> length vs = length ns
         \<and> (\<forall>i<length ns. upgradeExpressionConstant (ns ! i) = Inr (vs ! i))"
    by blast
next
  assume "\<exists>vs. v = TupleVal vs \<and> length vs = length ns
         \<and> (\<forall>i<length ns. upgradeExpressionConstant (ns ! i) = Inr (vs ! i))"
  then obtain vs where vs: "v = TupleVal vs" "length vs = length ns"
      "\<forall>i<length ns. upgradeExpressionConstant (ns ! i) = Inr (vs ! i)"
    by blast
  then have "list_all2 (\<lambda>n v. upgradeExpressionConstant n = Inr v) ns vs"
    by (simp add: list_all2_conv_all_nth)
  then have "upgradeExpressionConstant_list ns = Inr vs"
    by (simp add: upgradeExpressionConstant_list_all2)
  with vs(1) show "upgradeExpressionConstant (ListType lbrack rbrack ns) = Inr v"
    by simp
qed

text \<open>
  Claim C9 at a failing input. The list \<open>["a", true, [7]]\<close> is not turned into a tuple
  of three elements: the value of the number is an \<open>int64\<close>, which the switch on the
  token's value does not list (it has \<open>case int\<close>), so the conversion of the inner list,
  and with it of the whole list, ends in the panic of the \<open>default\<close> branch. The same
  list with a string in place of the number becomes the tuple of the conversions of its
  elements.
\<close>

theorem integer_list_panics:
  "upgradeExpressionConstant ex_list = Inl CannotDeriveExpression
   \<and> upgradeExpressionConstant (LiteralType (Token (Pos 17 1 18) (Int64V 7)) None None) =
       Inl CannotDeriveExpression
   \<and> upgradeExpressionConstant ex_list_strings =
       Inr (TupleVal [StringVal ''a'', BoolVal True, TupleVal [StringVal ''b'']])"
  by code_simp

subsection \<open>Comments taken before an item\<close>




lemma sameConstruct_tokens: "sameConstruct (UnstructuredTokens ts) y \<longleftrightarrow> y = UnstructuredTokens ts"
  by auto


















subsection \<open>Ad hoc comments in the output\<close>







lemma shuffles_left: "xs \<in> shuffles xs []"
  by simp

lemma shuffles_right: "ys \<in> shuffles [] ys"
  by simp

















subsection \<open>Blocks\<close>

lemma bodyBlocks_append: "bodyBlocks (a @ b) = bodyBlocks a @ bodyBlocks b"
  by (induction a rule: bodyBlocks.induct) simp_all

lemma bodyBlocks_replaceAttribute: "bodyBlocks (replaceAttribute to name val) = bodyBlocks to"
  by (induction to name val rule: replaceAttribute.induct) simp_all

lemma bodyBlocks_SetAttributeValue: "bodyBlocks (SetAttributeValue to name val) = bodyBlocks to"
  by (simp add: SetAttributeValue_def bodyBlocks_replaceAttribute bodyBlocks_append)

lemma bodyBlocks_writeComments: "bodyBlocks (writeComments to c) = bodyBlocks to"
  by (cases c) (simp_all add: writeComments_def AppendUnstructuredTokens_def bodyBlocks_append)

lemma bodyBlocks_writeNewline: "bodyBlocks (writeNewline to) = bodyBlocks to"
  by (simp add: writeNewline_def AppendNewline_def bodyBlocks_append)

lemma bodyBlocks_writeGroups: "bodyBlocks (writeGroups to comments) = bodyBlocks to"
  by (induction comments arbitrary: to) (simp_all add: bodyBlocks_writeComments bodyBlocks_writeNewline)

lemma bodyBlocks_separate: "bodyBlocks (separate item items to) = bodyBlocks to"
  by (cases items) (simp_all add: separate_def Let_def bodyBlocks_writeNewline)

lemma bodyBlocks_upgradeArgument:
  "upgradeArgument item to b = Inr to' \<Longrightarrow> bodyBlocks to' = bodyBlocks to"
  by (auto simp: upgradeArgument_def bodyBlocks_writeComments bodyBlocks_SetAttributeValue
           split: sum.splits if_splits)

lemma keyString_keyText: "keyString k = Inr s \<Longrightarrow> keyText k = s"
  by (auto simp: keyString_def keyText_def split: tokenValue.splits)

lemma labelStrings_keyText: "labelStrings ks = Inr ls \<Longrightarrow> map keyText ks = ls"
  by (induction ks arbitrary: ls) (auto split: sum.splits dest: keyString_keyText)

lemma firstKeyName_keyText:
  "firstKeyName item = Inr n \<Longrightarrow> (case Keys item of [] \<Rightarrow> [] | k # _ \<Rightarrow> keyText k) = n"
  by (auto simp: firstKeyName_def split: list.splits dest: keyString_keyText)

lemma itemBlocks_Cons:
  "itemBlocks (item # items) =
     (if Line (Assign item) = 0 \<or> length (Keys item) > 1 then
        [BlockShape (case Keys item of [] \<Rightarrow> [] | k # _ \<Rightarrow> keyText k) (map keyText (tl (Keys item)))
           (case Val item of ObjectType lbrace rbrace nested \<Rightarrow> itemBlocks nested | _ \<Rightarrow> [])]
      else [])
     @ itemBlocks items"
  by (cases item) simp

lemma upgradeBody_blocks:
  "upgradeBody items to q root = Inr (to', q') \<longrightarrow> bodyBlocks to' = bodyBlocks to @ itemBlocks items"
  "upgradeNestedBlock item to q = Inr (to', q') \<longrightarrow>
     isObjectType (Val item) \<and>
     bodyBlocks to' = bodyBlocks to @
       [BlockShape (case Keys item of [] \<Rightarrow> [] | k # _ \<Rightarrow> keyText k) (map keyText (tl (Keys item)))
          (case Val item of ObjectType lbrace rbrace nested \<Rightarrow> itemBlocks nested | _ \<Rightarrow> [])]"
proof (induction items to q root and item to q arbitrary: to' q' and to' q'
         rule: upgradeBody_upgradeNestedBlock.induct)
  case (1 to q root)
  then show ?case by simp
next
  case (2 item items to q root)
  show ?case
  proof
    assume a: "upgradeBody (item # items) to q root = Inr (to', q')"
    obtain comments q1 where t: "TakeBefore q item = Inr (comments, q1)"
      using a by (cases "TakeBefore q item") auto
    obtain n where n: "firstKeyName item = Inr n"
      using a t by (cases "firstKeyName item") auto
    let ?to1 = "writeComments (writeGroups to comments) (LeadComment item)"
    have b1: "bodyBlocks ?to1 = bodyBlocks to"
      by (simp add: bodyBlocks_writeComments bodyBlocks_writeGroups)
    have ne: "\<not> oldDidExpandEnv root n"
      using a t n by (auto simp: upgradeArgument_def)
    show "bodyBlocks to' = bodyBlocks to @ itemBlocks (item # items)"
    proof (cases "blockSyntax item")
      case True
      obtain to2 q2 where d: "upgradeNestedBlock item ?to1 q1 = Inr (to2, q2)"
        using a t n ne True by (cases "upgradeNestedBlock item ?to1 q1") auto
      have nb: "isObjectType (Val item) \<and>
         bodyBlocks to2 = bodyBlocks ?to1 @
           [BlockShape (case Keys item of [] \<Rightarrow> [] | k # _ \<Rightarrow> keyText k) (map keyText (tl (Keys item)))
              (case Val item of ObjectType lbrace rbrace nested \<Rightarrow> itemBlocks nested | _ \<Rightarrow> [])]"
        using "2.IH"(1)[OF t refl refl n ne True, of to2 q2] d by simp
      then have m: "Line (Assign item) = 0 \<or> length (Keys item) > 1"
        using True by (simp add: blockSyntax_def)
      have r: "upgradeBody items (separate item items to2) q2 root = Inr (to', q')"
        using a t n ne True d by simp
      have "bodyBlocks to' = bodyBlocks (separate item items to2) @ itemBlocks items"
        using "2.IH"(2)[OF t refl refl n _ refl, of to2 q2 to' q'] r ne True d by simp
      with nb m b1 show ?thesis
        by (simp add: itemBlocks_Cons bodyBlocks_separate del: itemBlocks.simps)
    next
      case False
      then have m: "\<not> (Line (Assign item) = 0 \<or> length (Keys item) > 1)"
        by (auto simp: blockSyntax_def Let_def split: if_splits)
      obtain to2 where d: "upgradeArgument item ?to1 False = Inr to2"
        using a t n ne False by (cases "upgradeArgument item ?to1 False") auto
      have r: "upgradeBody items (separate item items to2) q1 root = Inr (to', q')"
        using a t n ne False d by simp
      have "bodyBlocks to' = bodyBlocks (separate item items to2) @ itemBlocks items"
        using "2.IH"(2)[OF t refl refl n _ refl, of to2 q1 to' q'] r ne False d by simp
      with m b1 bodyBlocks_upgradeArgument[OF d] show ?thesis
        by (simp add: itemBlocks_Cons bodyBlocks_separate del: itemBlocks.simps)
    qed
  qed
next
  case (3 keys assign val lead line to q)
  show ?case
  proof
    assume a: "upgradeNestedBlock (ObjectItem keys assign val lead line) to q = Inr (to', q')"
    obtain name where n: "firstKeyName (ObjectItem keys assign val lead line) = Inr name"
      using a by (cases "firstKeyName (ObjectItem keys assign val lead line)") auto
    obtain labels where l: "labelStrings (tl keys) = Inr labels"
      using a n by (cases "labelStrings (tl keys)") auto
    obtain lb rb nested where v: "val = ObjectType lb rb nested"
      using a n l by (cases val) auto
    obtain newBody where b: "upgradeBody nested [] q False = Inr (newBody, q')"
        "to' = AppendNewBlock to name labels newBody"
      using a n l v by (cases "upgradeBody nested [] q False") auto
    have "bodyBlocks newBody = itemBlocks nested"
      using "3.IH"[OF n l v, of newBody q'] b(1) by simp
    with b(2) v firstKeyName_keyText[OF n] labelStrings_keyText[OF l]
    show "isObjectType (Val (ObjectItem keys assign val lead line)) \<and>
     bodyBlocks to' = bodyBlocks to @
       [BlockShape (case Keys (ObjectItem keys assign val lead line) of [] \<Rightarrow> [] | k # _ \<Rightarrow> keyText k)
          (map keyText (tl (Keys (ObjectItem keys assign val lead line))))
          (case Val (ObjectItem keys assign val lead line) of
             ObjectType lbrace rbrace nested \<Rightarrow> itemBlocks nested | _ \<Rightarrow> [])]"
      by (simp add: AppendNewBlock_def bodyBlocks_append)
  qed
qed

lemma block_item_step:
  assumes "firstKeyName item = Inr name" "labelStrings (tl (Keys item)) = Inr labels"
      "\<not> oldDidExpandEnv root name" "Line (Assign item) = 0 \<or> length (Keys item) > 1"
      "Val item = ObjectType lbrace rbrace nested" "TakeBefore q item = Inr (comments, q1)"
  shows "upgradeBody (item # items) to q root =
           (case upgradeBody nested [] q1 False of
              Inl e \<Rightarrow> Inl e
            | Inr (newBody, q2) \<Rightarrow>
                upgradeBody items
                  (separate item items
                     (writeComments (writeGroups to comments) (LeadComment item)
                        @ [Block name labels newBody]))
                  q2 root)"
proof -
  have b: "blockSyntax item" using assms(4,5) by (simp add: blockSyntax_def)
  obtain keys assign val lead line where i: "item = ObjectItem keys assign val lead line"
    by (cases item)
  have n: "upgradeNestedBlock item (writeComments (writeGroups to comments) (LeadComment item)) q1 =
          (case upgradeBody nested [] q1 False of
              Inl e \<Rightarrow> Inl e
            | Inr (newBody, q2) \<Rightarrow>
                Inr (writeComments (writeGroups to comments) (LeadComment item)
                        @ [Block name labels newBody], q2))"
    using assms(1,2,5) unfolding i by (simp add: AppendNewBlock_def split: sum.splits)
  show ?thesis
    using assms(1,3,6) b by (simp add: n split: sum.splits)
qed

text \<open>
  Claim C8, as amended. An item without assignment marker or with more than one key,
  that is not substitution-eligible and whose value is an \<open>ObjectType\<close>, is emitted as a
  new block: its type is the first key, its labels are the keys after the first in
  their order, and its body is the upgrade of the nested object list, started on an
  empty body with the root flag false; a panic of that nested upgrade is the result.
  Whenever the upgrade of a list completes, the blocks of the output, with their
  nesting, types and labels, are those the body had followed by those of the
  block-shaped items of the list.
\<close>

theorem block_items_become_blocks:
  "(firstKeyName item = Inr name \<and> labelStrings (tl (Keys item)) = Inr labels
      \<and> \<not> oldDidExpandEnv root name \<and> (Line (Assign item) = 0 \<or> length (Keys item) > 1)
      \<and> Val item = ObjectType lbrace rbrace nested \<and> TakeBefore q item = Inr (comments, q1) \<longrightarrow>
      upgradeBody (item # items) to q root =
           (case upgradeBody nested [] q1 False of
              Inl e \<Rightarrow> Inl e
            | Inr (newBody, q2) \<Rightarrow>
                upgradeBody items
                  (separate item items
                     (writeComments (writeGroups to comments) (LeadComment item)
                        @ [Block name labels newBody]))
                  q2 root))
   \<and> (upgradeBody items' to' q' root' = Inr (out, q'') \<longrightarrow>
        bodyBlocks out = bodyBlocks to' @ itemBlocks items')"
proof (intro conjI impI)
  assume h: "firstKeyName item = Inr name \<and> labelStrings (tl (Keys item)) = Inr labels
      \<and> \<not> oldDidExpandEnv root name \<and> (Line (Assign item) = 0 \<or> length (Keys item) > 1)
      \<and> Val item = ObjectType lbrace rbrace nested \<and> TakeBefore q item = Inr (comments, q1)"
  show "upgradeBody (item # items) to q root =
           (case upgradeBody nested [] q1 False of
              Inl e \<Rightarrow> Inl e
            | Inr (newBody, q2) \<Rightarrow>
                upgradeBody items
                  (separate item items
                     (writeComments (writeGroups to comments) (LeadComment item)
                        @ [Block name labels newBody]))
                  q2 root)"
    by (rule block_item_step) (use h in simp_all)
next
  assume "upgradeBody items' to' q' root' = Inr (out, q'')"
  then show "bodyBlocks out = bodyBlocks to' @ itemBlocks items'"
    using upgradeBody_blocks(1)[of items' to' q' root' out q''] by simp
qed

text \<open>
  The block \<open>provisioners { }\<close> is block-shaped and has an object value. In the root list
  it is not emitted as a block: the upgrade ends in the panic of the ExpandEnv path.
  Below the root it becomes a block.
\<close>

theorem root_block_not_emitted_counterexample:
  "(Line (Assign ex_provisioners) = 0 \<or> length (Keys ex_provisioners) > 1)
   \<and> isObjectType (Val ex_provisioners)
   \<and> upgradeBody [ex_provisioners] [] [] True = Inl ExpandEnvNotSupported
   \<and> upgradeBody [ex_provisioners] [] [] False = Inr ([Block ''provisioners'' [] []], [])"
  by code_simp

theorem block_items_become_blocks_witness:
  "upgradeBody [ex_outer] [] [] True =
     Inr ([Block ''outer'' [''x'']
            [Block ''inner'' [''y'', ''z'']
               [Attribute ''services''
                  (ObjectVal [(''modules.v1'', StringVal ''https://example.com/'')])]]], [])
   \<and> upgradeBody [ex_inner] [] [] False =
     Inr ([Block ''inner'' [''y'', ''z'']
               [Attribute ''services''
                  (ObjectVal [(''modules.v1'', StringVal ''https://example.com/'')])]], [])
   \<and> itemBlocks [ex_outer] = [BlockShape ''outer'' [''x''] [BlockShape ''inner'' [''y'', ''z''] []]]"
proof -
  let ?inner = "Block ''inner'' [''y'', ''z'']
               [Attribute ''services''
                  (ObjectVal [(''modules.v1'', StringVal ''https://example.com/'')])]"
  have k: "firstKeyName ex_outer = Inr ''outer''" by code_simp
  have l: "labelStrings (tl (Keys ex_outer)) = Inr [''x'']" by code_simp
  have e: "\<not> oldDidExpandEnv True ''outer''" by code_simp
  have m: "Line (Assign ex_outer) = 0 \<or> length (Keys ex_outer) > 1" by code_simp
  have v: "Val ex_outer = ObjectType (Pos 10 1 11) (Pos 92 5 1) [ex_inner]"
    by (simp add: ex_outer_def)
  have t: "TakeBefore [] ex_outer = Inr ([], [])" by code_simp
  have i: "upgradeBody [ex_inner] [] [] False = Inr ([?inner], [])" by code_simp
  note w = block_items_become_blocks
             [where item = ex_outer and name = "''outer''" and labels = "[''x'']" and root = True
                and lbrace = "Pos 10 1 11" and rbrace = "Pos 92 5 1" and nested = "[ex_inner]"
                and q = "[]" and comments = "[]" and ?q1.0 = "[]" and items = "[]" and to = "[]"
                and items' = "[ex_outer]" and to' = "[]" and q' = "[]" and root' = True
                and out = "[Block ''outer'' [''x''] [?inner]]" and q'' = "[]"]
  have u: "upgradeBody [ex_outer] [] [] True = Inr ([Block ''outer'' [''x''] [?inner]], [])"
    using w k l e m v t i
    by (simp add: separate_def writeComments_def ex_outer_def del: upgradeBody.simps(2))
  have b: "bodyBlocks [Block ''outer'' [''x''] [?inner]] = bodyBlocks [] @ itemBlocks [ex_outer]"
    using w u by (simp del: upgradeBody.simps itemBlocks.simps bodyBlocks.simps)
  then have "itemBlocks [ex_outer] = [BlockShape ''outer'' [''x''] [BlockShape ''inner'' [''y'', ''z''] []]]"
    by (simp del: itemBlocks.simps)
  with u i show ?thesis by (simp del: upgradeBody.simps itemBlocks.simps)
qed

subsection \<open>An attribute defined twice\<close>

text \<open>
  Claim C7 at a failing input. The root document that defines \<open>disable_checkpoint\<close> twice,
  as \<open>true\<close> and then as \<open>false\<close>, does not come out with one attribute holding
  \<open>false\<close>: its first item has a value that is no \<open>ObjectType\<close>, is forced to block
  syntax, and the upgrade ends in the panic of the type assertion of
  \<open>upgradeNestedBlock\<close>. Two definitions of an attribute with object values do what the
  claim says: one attribute is left, holding the second value.
\<close>

theorem duplicate_literal_attribute_panics:
  "upgradeBody [ex_checkpoint, ex_checkpoint2] [] [] True = Inl TypeAssertionObjectType
   \<and> upgradeBody [ex_services, ex_services2] [] [] False =
       Inr ([Attribute ''services'' (ObjectVal [(''modules.v1'', StringVal ''https://example.org/'')]),
             UnstructuredTokens [HclToken TokenNewline [CHR 0x0A]]], [])"
  by code_simp

end
